theory Spec2Isabelle
  imports Complex_Main "HOL-Library.Sublist" "HOL-Library.AList"
begin

section \<open>Data model\<close>

text \<open>
  The provider's JSON objects, reduced to the keys the program reads.  A reserved-IP
  object is read through \<^verbatim>\<open>.get('ip')\<close> and
  \<^verbatim>\<open>.get('droplet')\<close> followed by \<^verbatim>\<open>droplet.get('id')\<close>:
  \<open>ip\<close> is \<open>None\<close> when the key is missing, \<open>droplet\<close> is \<open>None\<close> when the
  reserved IP has no (truthy) droplet object or that object carries no id.
\<close>

record reserved_ip =
  ip :: "string option"
  droplet :: "int option"

text \<open>
  One entry of \<^verbatim>\<open>droplet['networks']['v4']\<close>, and a droplet object of the
  droplet listing as \<^verbatim>\<open>extract_droplet_details\<close> reads it.
\<close>

record ip_info =
  ip_address :: "string option"
  ip_type :: "string option"

record raw_droplet =
  raw_id :: "int option"
  raw_name :: "string option"
  raw_v4 :: "ip_info list"

record droplet_details =
  droplet_id :: int
  v4_ips :: "string list"

text \<open>
  A parsed JSON response body (\<^verbatim>\<open>response.json()\<close>): each field is
  \<open>None\<close> when the key is absent, so that the \<^verbatim>\<open>.get(key, default)\<close>
  of the source picks its default.  For \<open>created\<close> (the key
  \<^verbatim>\<open>'reserved_ip'\<close>) \<open>None\<close> also stands for an empty object, which is
  what the default \<^verbatim>\<open>{}\<close> is.
\<close>

record json_body =
  message :: "string option"
  reserved_ips :: "reserved_ip list option"
  created :: "reserved_ip option"
  droplets :: "raw_droplet list option"

text \<open>
  A response has a status code and a body; the body is \<open>None\<close> when
  \<^verbatim>\<open>response.json()\<close> raises.  A request either raises (transport failure,
  timeout) or yields a response, after some latency.
\<close>

record response =
  status_code :: int
  json :: "json_body option"

datatype http_outcome = Raises | Responds response

record reply =
  latency :: real
  outcome :: http_outcome

datatype http_method = GET | POST | DELETE

record request =
  meth :: http_method
  url :: string
  bearer :: string
  payload :: "int option"

text \<open>
  The provider is the environment: its reply may depend on how many requests the process
  has sent so far and on the request itself.
\<close>

type_synonym provider = "nat \<Rightarrow> request \<Rightarrow> reply"

text \<open>
  What the process-wide \<^verbatim>\<open>_cache\<close> dictionary holds as data: the list
  returned by the reserved-IP listing, or the dictionary (in insertion order) built by
  \<^verbatim>\<open>extract_droplet_details\<close>.
\<close>

datatype cached = ReservedIps "reserved_ip list" | Droplets "(string \<times> droplet_details) list"

datatype event = Request request | Sleep real

text \<open>
  The state the code reads and writes: the module-level \<^verbatim>\<open>_cache\<close>, the clock
  \<^verbatim>\<open>time.time()\<close> in seconds, the number of HTTP requests sent, and the
  trace of requests and \<^verbatim>\<open>asyncio.sleep\<close> calls in program order.  A sleep
  advances the clock by its duration and a request by the latency of its reply; logging
  and printing are left out.
\<close>

record world =
  cache :: "string \<rightharpoonup> cached \<times> real"
  now :: real
  sent :: nat
  trace :: "event list"

definition sleep :: "real \<Rightarrow> world \<Rightarrow> world" where
  "sleep d w = w\<lparr>now := now w + d, trace := trace w @ [Sleep d]\<rparr>"

definition http :: "provider \<Rightarrow> request \<Rightarrow> world \<Rightarrow> http_outcome \<times> world" where
  "http prov rq w =
     (let r = prov (sent w) rq
      in (outcome r,
          w\<lparr>now := now w + latency r, sent := Suc (sent w), trace := trace w @ [Request rq]\<rparr>))"

section \<open>The TTL cache (modules/doapi.py)\<close>

definition cache_timeout :: real where
  "cache_timeout = 30"

definition get_cache_key :: "string \<Rightarrow> string \<Rightarrow> string" where
  "get_cache_key token endpoint = take 10 token @ ''_'' @ endpoint"

definition get_from_cache :: "string \<Rightarrow> world \<Rightarrow> cached option \<times> world" where
  "get_from_cache cache_key w =
     (case cache w cache_key of
        None \<Rightarrow> (None, w)
      | Some (data, timestamp) \<Rightarrow>
          if now w - timestamp < cache_timeout then (Some data, w)
          else (None, w\<lparr>cache := (cache w)(cache_key := None)\<rparr>))"

definition set_cache :: "string \<Rightarrow> cached \<Rightarrow> world \<Rightarrow> world" where
  "set_cache cache_key data w = w\<lparr>cache := (cache w)(cache_key \<mapsto> (data, now w))\<rparr>"

definition clear_cache :: "world \<Rightarrow> world" where
  "clear_cache w = w\<lparr>cache := Map.empty\<rparr>"

section \<open>Listing reserved IPs (modules/doapi.py)\<close>

definition api_request :: "http_method \<Rightarrow> string \<Rightarrow> string \<Rightarrow> int option \<Rightarrow> request" where
  "api_request m path token body =
     \<lparr>meth = m, url = ''https://api.digitalocean.com/v2/'' @ path, bearer = token, payload = body\<rparr>"

text \<open>
  The body of \<^verbatim>\<open>for attempt in range(retries)\<close> in
  \<^verbatim>\<open>get_reserved_ips\<close>, as a recursion over the attempts still to run.
  Status 200 with a readable body returns the listing (and caches it when
  \<^verbatim>\<open>use_cache\<close> is set); an unreadable body raises inside the
  \<^verbatim>\<open>try\<close> and is handled like a transport failure; every failure sleeps
  2 seconds unless the attempt is the last one.  After the loop the function returns
  the empty list.
\<close>

fun get_reserved_ips_loop ::
  "provider \<Rightarrow> string \<Rightarrow> nat \<Rightarrow> bool \<Rightarrow> nat list \<Rightarrow> world \<Rightarrow> cached \<times> world" where
  "get_reserved_ips_loop prov token retries use_cache [] w = (ReservedIps [], w)"
| "get_reserved_ips_loop prov token retries use_cache (attempt # rest) w =
     (case http prov (api_request GET ''reserved_ips'' token None) w of
        (Responds resp, w1) \<Rightarrow>
          if status_code resp = 200 then
            (case json resp of
               Some data \<Rightarrow>
                 let ips = (case reserved_ips data of None \<Rightarrow> [] | Some xs \<Rightarrow> xs);
                     w2 = (if use_cache
                           then set_cache (get_cache_key token ''reserved_ips'') (ReservedIps ips) w1
                           else w1)
                 in (ReservedIps ips, w2)
             | None \<Rightarrow>
                 get_reserved_ips_loop prov token retries use_cache rest
                   (if attempt < retries - 1 then sleep 2 w1 else w1))
          else
            get_reserved_ips_loop prov token retries use_cache rest
              (if attempt < retries - 1 then sleep 2 w1 else w1)
      | (Raises, w1) \<Rightarrow>
          get_reserved_ips_loop prov token retries use_cache rest
            (if attempt < retries - 1 then sleep 2 w1 else w1))"

definition get_reserved_ips :: "provider \<Rightarrow> string \<Rightarrow> nat \<Rightarrow> bool \<Rightarrow> world \<Rightarrow> cached \<times> world" where
  "get_reserved_ips prov token retries use_cache w =
     (if use_cache then
        (case get_from_cache (get_cache_key token ''reserved_ips'') w of
           (Some cached_data, w1) \<Rightarrow> (cached_data, w1)
         | (None, w1) \<Rightarrow> get_reserved_ips_loop prov token retries use_cache [0..<retries] w1)
      else get_reserved_ips_loop prov token retries use_cache [0..<retries] w)"

section \<open>String helpers\<close>

text \<open>
  Python's substring test \<^verbatim>\<open>needle in haystack\<close>, \<^verbatim>\<open>str.lower\<close>
  on ASCII letters, \<^verbatim>\<open>str.strip\<close> and
  \<^verbatim>\<open>s.split(":", 1)[1]\<close> (the text after the first colon).  A
  \<open>char\<close> stands for a code point below 256; \<open>is_space\<close> holds of those
  for which \<^verbatim>\<open>str.isspace\<close> is true: U+0009 to U+000D, U+001C to U+0020,
  U+0085 and U+00A0.
\<close>

fun str_contains :: "string \<Rightarrow> string \<Rightarrow> bool" where
  "str_contains needle [] = (needle = [])"
| "str_contains needle (c # cs) = (prefix needle (c # cs) \<or> str_contains needle cs)"

definition lower_char :: "char \<Rightarrow> char" where
  "lower_char c =
     (case map_of (zip ''ABCDEFGHIJKLMNOPQRSTUVWXYZ'' ''abcdefghijklmnopqrstuvwxyz'') c of
        Some l \<Rightarrow> l
      | None \<Rightarrow> c)"

definition lower :: "string \<Rightarrow> string" where
  "lower s = map lower_char s"

definition is_space :: "char \<Rightarrow> bool" where
  "is_space c = (c \<in> set [CHR '' '', CHR 0x09, CHR 0x0A, CHR 0x0B, CHR 0x0C, CHR 0x0D,
                            CHR 0x1C, CHR 0x1D, CHR 0x1E, CHR 0x1F, CHR 0x85, CHR 0xA0])"

definition strip :: "string \<Rightarrow> string" where
  "strip s = rev (dropWhile is_space (rev (dropWhile is_space s)))"

definition after_colon :: "string \<Rightarrow> string" where
  "after_colon s = tl (dropWhile (\<lambda>c. c \<noteq> CHR '':'') s)"

section \<open>Listing droplets (modules/doapi.py)\<close>

text \<open>
  The list comprehension over \<^verbatim>\<open>networks.v4\<close>: the filter
  \<^verbatim>\<open>ip_info.get("type") == "public"\<close> runs first, then
  \<^verbatim>\<open>ip_info["ip_address"]\<close>, which raises KeyError (\<open>None\<close> here) when
  a public entry has no address.
\<close>

fun public_v4 :: "ip_info list \<Rightarrow> string list option" where
  "public_v4 [] = Some []"
| "public_v4 (i # rest) =
     (if ip_type i = Some ''public'' then
        (case ip_address i of
           None \<Rightarrow> None
         | Some a \<Rightarrow> (case public_v4 rest of None \<Rightarrow> None | Some as \<Rightarrow> Some (a # as)))
      else public_v4 rest)"

fun extract_droplet_details_loop ::
  "raw_droplet list \<Rightarrow> (string \<times> droplet_details) list \<Rightarrow> (string \<times> droplet_details) list option" where
  "extract_droplet_details_loop [] result = Some result"
| "extract_droplet_details_loop (d # ds) result =
     (case public_v4 (raw_v4 d) of
        None \<Rightarrow> None
      | Some ips \<Rightarrow>
          (case (raw_id d, raw_name d) of
             (Some i, Some n) \<Rightarrow>
               if i \<noteq> 0 \<and> n \<noteq> [] \<and> ips \<noteq> []
               then extract_droplet_details_loop ds
                      (AList.update n \<lparr>droplet_id = i, v4_ips = ips\<rparr> result)
               else extract_droplet_details_loop ds result
           | _ \<Rightarrow> extract_droplet_details_loop ds result))"

text \<open>Any exception inside \<^verbatim>\<open>extract_droplet_details\<close> yields the empty dictionary.\<close>

definition extract_droplet_details :: "json_body \<Rightarrow> (string \<times> droplet_details) list" where
  "extract_droplet_details data =
     (case extract_droplet_details_loop (case droplets data of None \<Rightarrow> [] | Some ds \<Rightarrow> ds) [] of
        None \<Rightarrow> []
      | Some result \<Rightarrow> result)"

fun get_droplets_loop ::
  "provider \<Rightarrow> string \<Rightarrow> nat \<Rightarrow> nat list \<Rightarrow> world \<Rightarrow> (string \<times> droplet_details) list \<times> world" where
  "get_droplets_loop prov token retries [] w = ([], w)"
| "get_droplets_loop prov token retries (attempt # rest) w =
     (case http prov (api_request GET ''droplets'' token None) w of
        (Responds resp, w1) \<Rightarrow>
          if status_code resp = 200 then
            (case json resp of
               Some data \<Rightarrow>
                 let result = extract_droplet_details data
                 in if result \<noteq> [] then (result, w1)
                    else get_droplets_loop prov token retries rest
                           (if attempt < retries - 1 then sleep 2 w1 else w1)
             | None \<Rightarrow>
                 get_droplets_loop prov token retries rest
                   (if attempt < retries - 1 then sleep 2 w1 else w1))
          else
            get_droplets_loop prov token retries rest
              (if attempt < retries - 1 then sleep 2 w1 else w1)
      | (Raises, w1) \<Rightarrow>
          get_droplets_loop prov token retries rest
            (if attempt < retries - 1 then sleep 2 w1 else w1))"

definition get_droplets :: "provider \<Rightarrow> string \<Rightarrow> nat \<Rightarrow> world \<Rightarrow> (string \<times> droplet_details) list \<times> world" where
  "get_droplets prov token retries w = get_droplets_loop prov token retries [0..<retries] w"

text \<open>
  \<^verbatim>\<open>get_droplets_cached\<close> returns whatever object the cache holds under the
  key; a fresh result is cached only when it is non-empty.
\<close>

definition get_droplets_cached :: "provider \<Rightarrow> string \<Rightarrow> bool \<Rightarrow> world \<Rightarrow> cached \<times> world" where
  "get_droplets_cached prov token use_cache w =
     (case (if use_cache then get_from_cache (get_cache_key token ''droplets'') w else (None, w)) of
        (Some cached_data, w1) \<Rightarrow> (cached_data, w1)
      | (None, w1) \<Rightarrow>
          (case get_droplets prov token 3 w1 of
             (result, w2) \<Rightarrow>
               (Droplets result,
                if use_cache \<and> result \<noteq> []
                then set_cache (get_cache_key token ''droplets'') (Droplets result) w2
                else w2)))"

section \<open>Creating and deleting a reserved IP (modules/doapi.py)\<close>

text \<open>
  The classified error dictionaries \<^verbatim>\<open>{"error": ..., "message": ..., ...}\<close>,
  and the three kinds of value each call returns.  \<open>RetInfo None\<close> is the empty
  dictionary \<^verbatim>\<open>{}\<close>; a reserved-IP object of the provider has no key
  \<^verbatim>\<open>'error'\<close>.
\<close>

record error_dict =
  error :: string
  error_message :: "string option"
  error_ip :: "string option"
  error_status_code :: "int option"

datatype create_ret = RetNone | RetInfo "reserved_ip option" | RetError error_dict

datatype delete_ret = DelTrue | DelFalse | DelError error_dict

fun create_reserved_ip_loop ::
  "provider \<Rightarrow> string \<Rightarrow> int \<Rightarrow> nat \<Rightarrow> nat list \<Rightarrow> world \<Rightarrow> create_ret \<times> world" where
  "create_reserved_ip_loop prov token did retries [] w = (RetNone, w)"
| "create_reserved_ip_loop prov token did retries (attempt # rest) w =
     (case http prov (api_request POST ''reserved_ips'' token (Some did)) w of
        (Responds resp, w1) \<Rightarrow>
          if status_code resp = 201 \<or> status_code resp = 202 then
            (case json resp of
               Some result \<Rightarrow> (RetInfo (created result), w1)
             | None \<Rightarrow>
                 create_reserved_ip_loop prov token did retries rest
                   (if attempt < retries - 1 then sleep 2 w1 else w1))
          else if status_code resp = 422 then
            (case json resp of
               Some error_data \<Rightarrow>
                 let msg = (case message error_data of None \<Rightarrow> ''Unknown error'' | Some m \<Rightarrow> m)
                 in if str_contains ''exceed your Reserved IP limit'' msg
                    then (RetError \<lparr>error = ''quota_exceeded'', error_message = Some msg,
                                     error_ip = None, error_status_code = None\<rparr>, w1)
                    else (RetError \<lparr>error = ''unprocessable_entity'', error_message = Some msg,
                                     error_ip = None, error_status_code = None\<rparr>, w1)
             | None \<Rightarrow>
                 (RetError \<lparr>error = ''unprocessable_entity'', error_message = None,
                             error_ip = None, error_status_code = Some (status_code resp)\<rparr>, w1))
          else
            create_reserved_ip_loop prov token did retries rest
              (if attempt < retries - 1 then sleep 2 w1 else w1)
      | (Raises, w1) \<Rightarrow>
          create_reserved_ip_loop prov token did retries rest
            (if attempt < retries - 1 then sleep 2 w1 else w1))"

definition create_reserved_ip :: "provider \<Rightarrow> string \<Rightarrow> int \<Rightarrow> nat \<Rightarrow> world \<Rightarrow> create_ret \<times> world" where
  "create_reserved_ip prov token did retries w =
     create_reserved_ip_loop prov token did retries [0..<retries] w"

fun delete_reserved_ip_loop ::
  "provider \<Rightarrow> string \<Rightarrow> string \<Rightarrow> nat \<Rightarrow> nat list \<Rightarrow> world \<Rightarrow> delete_ret \<times> world" where
  "delete_reserved_ip_loop prov token rip retries [] w = (DelFalse, w)"
| "delete_reserved_ip_loop prov token rip retries (attempt # rest) w =
     (case http prov (api_request DELETE (''reserved_ips/'' @ rip) token None) w of
        (Responds resp, w1) \<Rightarrow>
          if status_code resp = 204 then (DelTrue, w1)
          else if status_code resp = 404 then
            (case json resp of
               Some error_data \<Rightarrow>
                 (DelError \<lparr>error = ''not_found'',
                             error_message = Some (case message error_data of
                                                     None \<Rightarrow> ''Reserved IP not found''
                                                   | Some m \<Rightarrow> m),
                             error_ip = Some rip, error_status_code = None\<rparr>, w1)
             | None \<Rightarrow>
                 (DelError \<lparr>error = ''not_found'',
                             error_message = Some ''Reserved IP not found or already deleted'',
                             error_ip = Some rip, error_status_code = None\<rparr>, w1))
          else if status_code resp = 422 then
            (case json resp of
               Some error_data \<Rightarrow>
                 let msg = (case message error_data of None \<Rightarrow> ''Unprocessable entity'' | Some m \<Rightarrow> m)
                 in if str_contains ''pending event'' (lower msg) then
                      (if attempt < retries - 1
                       then delete_reserved_ip_loop prov token rip retries rest
                              (sleep (5 + real attempt * 2) w1)
                       else (DelError \<lparr>error = ''pending_event'', error_message = Some msg,
                                        error_ip = Some rip, error_status_code = None\<rparr>, w1))
                    else (DelError \<lparr>error = ''unprocessable_entity'', error_message = Some msg,
                                     error_ip = Some rip, error_status_code = None\<rparr>, w1)
             | None \<Rightarrow>
                 (DelError \<lparr>error = ''unprocessable_entity'',
                             error_message = Some ''Unknown 422 error'',
                             error_ip = Some rip, error_status_code = None\<rparr>, w1))
          else
            delete_reserved_ip_loop prov token rip retries rest
              (if attempt < retries - 1 then sleep (3 + real attempt) w1 else w1)
      | (Raises, w1) \<Rightarrow>
          delete_reserved_ip_loop prov token rip retries rest
            (if attempt < retries - 1 then sleep (3 + real attempt) w1 else w1))"

definition delete_reserved_ip :: "provider \<Rightarrow> string \<Rightarrow> string \<Rightarrow> nat \<Rightarrow> world \<Rightarrow> delete_ret \<times> world" where
  "delete_reserved_ip prov token rip retries w =
     delete_reserved_ip_loop prov token rip retries [0..<retries] w"

section \<open>The multi-account aggregator (modules/doapi.py)\<close>

text \<open>
  A value of \<^verbatim>\<open>config.json\<close> under a key: a string, or a number (on which
  \<^verbatim>\<open>":" in token_value\<close> raises TypeError).  \<open>type_error_text\<close> is
  \<^verbatim>\<open>str(e)\<close> of that exception.
\<close>

datatype config_value = CfgStr string | CfgNum int

text \<open>
  The lines \<^verbatim>\<open>if ":" in token_value: token = token_value.split(":", 1)[1].strip()\<close>
  \<^verbatim>\<open>else: token = token_value\<close>, which drop a descriptive prefix of the
  configured string.
\<close>

definition extract_token :: "string \<Rightarrow> string" where
  "extract_token token_value =
     (if CHR '':'' \<in> set token_value then strip (after_colon token_value) else token_value)"

definition type_error_text :: string where
  "type_error_text = ''argument of type 'int' is not iterable''"

record account_result =
  token_key :: string
  account_reserved_ips :: cached
  reserved_ips_count :: nat
  status :: string
  account_error :: "string option"

definition len_cached :: "cached \<Rightarrow> nat" where
  "len_cached c = (case c of ReservedIps xs \<Rightarrow> length xs | Droplets d \<Rightarrow> length d)"

text \<open>
  The aggregator runs one task per credential under \<^verbatim>\<open>asyncio.gather\<close>.
  A task runs until it awaits \<^verbatim>\<open>asyncio.sleep\<close>: the requests are
  blocking calls of \<^verbatim>\<open>requests.get\<close> and do not yield to the event loop.
  So the listing operation is split at its sleeps.  \<open>get_reserved_ips_steps\<close> runs
  the loop over the given attempts until the coroutine returns (\<open>Returned\<close>) or
  calls \<^verbatim>\<open>asyncio.sleep(2)\<close> (\<open>Suspended\<close>, with the attempts that
  remain after the sleep); the call is recorded in the trace, and the clock is moved by
  the event loop, not by the task.
\<close>

datatype fetch_step = Suspended "nat list" | Returned cached

definition begin_sleep :: "real \<Rightarrow> world \<Rightarrow> world" where
  "begin_sleep d w = w\<lparr>trace := trace w @ [Sleep d]\<rparr>"

fun get_reserved_ips_steps ::
  "provider \<Rightarrow> string \<Rightarrow> nat \<Rightarrow> bool \<Rightarrow> nat list \<Rightarrow> world \<Rightarrow> fetch_step \<times> world" where
  "get_reserved_ips_steps prov token retries use_cache [] w = (Returned (ReservedIps []), w)"
| "get_reserved_ips_steps prov token retries use_cache (attempt # rest) w =
     (case http prov (api_request GET ''reserved_ips'' token None) w of
        (Responds resp, w1) \<Rightarrow>
          if status_code resp = 200 then
            (case json resp of
               Some data \<Rightarrow>
                 let ips = (case reserved_ips data of None \<Rightarrow> [] | Some xs \<Rightarrow> xs);
                     w2 = (if use_cache
                           then set_cache (get_cache_key token ''reserved_ips'') (ReservedIps ips) w1
                           else w1)
                 in (Returned (ReservedIps ips), w2)
             | None \<Rightarrow>
                 if attempt < retries - 1 then (Suspended rest, begin_sleep 2 w1)
                 else get_reserved_ips_steps prov token retries use_cache rest w1)
          else
            (if attempt < retries - 1 then (Suspended rest, begin_sleep 2 w1)
             else get_reserved_ips_steps prov token retries use_cache rest w1)
      | (Raises, w1) \<Rightarrow>
          if attempt < retries - 1 then (Suspended rest, begin_sleep 2 w1)
          else get_reserved_ips_steps prov token retries use_cache rest w1)"

text \<open>The listing operation from its entry (the cache lookup) to its first sleep or its return.\<close>

definition get_reserved_ips_start ::
  "provider \<Rightarrow> string \<Rightarrow> nat \<Rightarrow> bool \<Rightarrow> world \<Rightarrow> fetch_step \<times> world" where
  "get_reserved_ips_start prov token retries use_cache w =
     (if use_cache then
        (case get_from_cache (get_cache_key token ''reserved_ips'') w of
           (Some cached_data, w1) \<Rightarrow> (Returned cached_data, w1)
         | (None, w1) \<Rightarrow> get_reserved_ips_steps prov token retries use_cache [0..<retries] w1)
      else get_reserved_ips_steps prov token retries use_cache [0..<retries] w)"

text \<open>
  The inner coroutine \<^verbatim>\<open>fetch_token_data\<close>: everything runs inside
  \<^verbatim>\<open>try\<close>, and \<^verbatim>\<open>except Exception\<close> builds the result tagged
  \<^verbatim>\<open>'failed'\<close>.  A task is either waiting in a sleep of its listing call
  (with its key, its token and the attempts that remain) or finished with its result.
  \<open>fetch_token_data\<close> runs the coroutine from its start and
  \<open>resume_fetch_token_data\<close> from a sleep, each to the next sleep or to the end.
\<close>

datatype task_state = Waiting string string "nat list" | Finished account_result

definition task_after :: "string \<Rightarrow> string \<Rightarrow> fetch_step \<Rightarrow> task_state" where
  "task_after key token step =
     (case step of
        Suspended rest \<Rightarrow> Waiting key token rest
      | Returned ips \<Rightarrow>
          Finished \<lparr>token_key = key, account_reserved_ips = ips, reserved_ips_count = len_cached ips,
                    status = ''success'', account_error = None\<rparr>)"

definition fetch_token_data ::
  "provider \<Rightarrow> bool \<Rightarrow> string \<Rightarrow> config_value \<Rightarrow> world \<Rightarrow> task_state \<times> world" where
  "fetch_token_data prov use_cache key token_value w =
     (case token_value of
        CfgNum n \<Rightarrow>
          (Finished \<lparr>token_key = key, account_reserved_ips = ReservedIps [], reserved_ips_count = 0,
                     status = ''failed'', account_error = Some type_error_text\<rparr>, w)
      | CfgStr s \<Rightarrow>
          let token = extract_token s
          in (case get_reserved_ips_start prov token 3 use_cache w of
                (step, w1) \<Rightarrow> (task_after key token step, w1)))"

definition resume_fetch_token_data ::
  "provider \<Rightarrow> bool \<Rightarrow> string \<Rightarrow> string \<Rightarrow> nat list \<Rightarrow> world \<Rightarrow> task_state \<times> world" where
  "resume_fetch_token_data prov use_cache key token rest w =
     (case get_reserved_ips_steps prov token 3 use_cache rest w of
        (step, w1) \<Rightarrow> (task_after key token step, w1))"

text \<open>
  The event loop.  \<^verbatim>\<open>asyncio.gather\<close> schedules the tasks in the order of
  \<^verbatim>\<open>tokens.items()\<close>, and the loop runs each in that order to its first
  sleep or to its end (\<open>start_tasks\<close>).  A sleeping task is a timer: its wake-up
  time (the clock at the call plus the 2 seconds), its position among the tasks, and
  what it needs to go on.  While timers remain, the loop takes the one with the earliest
  wake-up time (of two with the same time, the one that went to sleep first), idles until
  that time if the clock has not reached it, and runs the task to its next sleep or to
  its end (\<open>run_event_loop\<close>).  The result of a finished task is stored at the
  task's position, which is the order in which \<^verbatim>\<open>gather\<close> returns them.
\<close>

record timer =
  wake :: real
  slot :: nat
  timer_key :: string
  timer_token :: string
  timer_rest :: "nat list"

fun earliest :: "timer \<Rightarrow> timer list \<Rightarrow> timer" where
  "earliest t [] = t"
| "earliest t (u # us) = earliest (if wake u < wake t then u else t) us"

fun start_tasks ::
  "provider \<Rightarrow> bool \<Rightarrow> (string \<times> config_value) list \<Rightarrow> nat \<Rightarrow> timer list \<Rightarrow>
   account_result option list \<Rightarrow> world \<Rightarrow> (timer list \<times> account_result option list) \<times> world" where
  "start_tasks prov use_cache [] i timers results w = ((timers, results), w)"
| "start_tasks prov use_cache ((key, token_value) # rest) i timers results w =
     (case fetch_token_data prov use_cache key token_value w of
        (Finished result, w1) \<Rightarrow>
          start_tasks prov use_cache rest (Suc i) timers (results[i := Some result]) w1
      | (Waiting k token attempts, w1) \<Rightarrow>
          start_tasks prov use_cache rest (Suc i)
            (timers @ [\<lparr>wake = now w1 + 2, slot = i, timer_key = k, timer_token = token,
                         timer_rest = attempts\<rparr>])
            results w1)"

function run_event_loop ::
  "provider \<Rightarrow> bool \<Rightarrow> timer list \<Rightarrow> account_result option list \<Rightarrow> world \<Rightarrow>
   account_result option list \<times> world" where
  "run_event_loop prov use_cache [] results w = (results, w)"
| "run_event_loop prov use_cache (t # ts) results w =
     (case resume_fetch_token_data prov use_cache (timer_key (earliest t ts))
             (timer_token (earliest t ts)) (timer_rest (earliest t ts))
             (w\<lparr>now := max (now w) (wake (earliest t ts))\<rparr>) of
        (Finished result, w1) \<Rightarrow>
          run_event_loop prov use_cache (remove1 (earliest t ts) (t # ts))
            (results[slot (earliest t ts) := Some result]) w1
      | (Waiting k token attempts, w1) \<Rightarrow>
          run_event_loop prov use_cache
            (remove1 (earliest t ts) (t # ts)
             @ [\<lparr>wake = now w1 + 2, slot = slot (earliest t ts), timer_key = k,
                  timer_token = token, timer_rest = attempts\<rparr>])
            results w1)"
  by pat_completeness auto
termination
proof (relation "measure (\<lambda>(prov, use_cache, timers, results, w).
                    sum_list (map (\<lambda>t. Suc (length (timer_rest t))) timers))")
  show "wf (measure (\<lambda>(prov, use_cache, timers, results, w).
                    sum_list (map (\<lambda>t. Suc (length (timer_rest t))) timers)))"
    by simp
next
  fix prov :: provider and use_cache and t :: timer and ts
    and results :: "account_result option list" and w :: world and x y x11 x12 x13
  assume run: "(x, y) = resume_fetch_token_data prov use_cache (timer_key (earliest t ts))
                (timer_token (earliest t ts)) (timer_rest (earliest t ts))
                (w\<lparr>now := max (now w) (wake (earliest t ts))\<rparr>)"
    and waiting: "x = Waiting x11 x12 x13"
  have shorter: "get_reserved_ips_steps p tok n c att v = (Suspended rest, v') \<Longrightarrow>
                 length rest < length att" for p tok n c att v rest v'
  proof (induction att arbitrary: v)
    case Nil
    then show ?case by simp
  next
    case (Cons a att)
    show ?case
    proof (cases "\<exists>v2. get_reserved_ips_steps p tok n c att v2 = (Suspended rest, v')")
      case True
      then have "length rest < length att"
        using Cons.IH by blast
      then show ?thesis by simp
    next
      case False
      then show ?thesis
        using Cons.prems
        by (auto simp add: Let_def split: prod.splits http_outcome.splits if_splits option.splits)
    qed
  qed
  have less: "length x13 < length (timer_rest (earliest t ts))"
    using run [symmetric] waiting shorter
    by (auto simp add: resume_fetch_token_data_def task_after_def
          split: prod.splits fetch_step.splits)
  have "earliest t ts \<in> set (t # ts)"
    by (induction ts arbitrary: t) auto
  then have "sum_list (map (\<lambda>t. Suc (length (timer_rest t))) (t # ts))
               = Suc (length (timer_rest (earliest t ts)))
                 + sum_list (map (\<lambda>t. Suc (length (timer_rest t))) (remove1 (earliest t ts) (t # ts)))"
    by (rule sum_list_map_remove1)
  then have "sum_list (map (\<lambda>t. Suc (length (timer_rest t)))
               (remove1 (earliest t ts) (t # ts)
                @ [\<lparr>wake = now y + 2, slot = slot (earliest t ts), timer_key = x11,
                     timer_token = x12, timer_rest = x13\<rparr>]))
             < sum_list (map (\<lambda>t. Suc (length (timer_rest t))) (t # ts))"
    using less by (simp del: remove1.simps)
  then show "((prov, use_cache,
               remove1 (earliest t ts) (t # ts)
               @ [\<lparr>wake = now y + 2, slot = slot (earliest t ts), timer_key = x11,
                    timer_token = x12, timer_rest = x13\<rparr>],
               results, y),
              prov, use_cache, t # ts, results, w)
             \<in> measure (\<lambda>(prov, use_cache, timers, results, w).
                    sum_list (map (\<lambda>t. Suc (length (timer_rest t))) timers))"
    by (simp del: remove1.simps sum_list.Cons list.map)
next
  fix prov :: provider and use_cache and t :: timer and ts
    and results :: "account_result option list" and w :: world
    and x :: task_state and y :: world and x2
  have "earliest t ts \<in> set (t # ts)"
    by (induction ts arbitrary: t) auto
  then have "sum_list (map (\<lambda>t. Suc (length (timer_rest t))) (t # ts))
               = Suc (length (timer_rest (earliest t ts)))
                 + sum_list (map (\<lambda>t. Suc (length (timer_rest t))) (remove1 (earliest t ts) (t # ts)))"
    by (rule sum_list_map_remove1)
  then have "sum_list (map (\<lambda>t. Suc (length (timer_rest t))) (remove1 (earliest t ts) (t # ts)))
             < sum_list (map (\<lambda>t. Suc (length (timer_rest t))) (t # ts))"
    by (simp del: remove1.simps)
  then show "((prov, use_cache, remove1 (earliest t ts) (t # ts),
               results[slot (earliest t ts) := Some x2], y),
              prov, use_cache, t # ts, results, w)
             \<in> measure (\<lambda>(prov, use_cache, timers, results, w).
                    sum_list (map (\<lambda>t. Suc (length (timer_rest t))) timers))"
    by (simp del: remove1.simps sum_list.Cons list.map)
qed

text \<open>
  The results in task order are stored under their token key; a position without a
  result is skipped, as the source skips a result that is not a dictionary.
\<close>

fun collect_results ::
  "account_result option list \<Rightarrow> (string \<rightharpoonup> account_result) \<Rightarrow> (string \<rightharpoonup> account_result)" where
  "collect_results [] all_results = all_results"
| "collect_results (Some result # results) all_results =
     collect_results results (all_results(token_key result \<mapsto> result))"
| "collect_results (None # results) all_results = collect_results results all_results"

definition get_all_tokens_reserved_ips ::
  "provider \<Rightarrow> (string \<times> config_value) list \<Rightarrow> bool \<Rightarrow> world \<Rightarrow> (string \<rightharpoonup> account_result) \<times> world" where
  "get_all_tokens_reserved_ips prov config use_cache w =
     (let tokens = filter (\<lambda>(key, v). prefix ''do_token'' key) config
      in if tokens = [] then (Map.empty, w)
         else
           (case start_tasks prov use_cache tokens 0 [] (replicate (length tokens) None) w of
              ((timers, results), w1) \<Rightarrow>
                (case run_event_loop prov use_cache timers results w1 of
                   (all, w2) \<Rightarrow> (collect_results all Map.empty, w2))))"

section \<open>The replace orchestrator (reserved_ip_api.py)\<close>

text \<open>
  \<^verbatim>\<open>find_machine_reserved_ip\<close> reads the listing with the default
  \<^verbatim>\<open>use_cache=True\<close> and \<^verbatim>\<open>retries=3\<close>.  Iterating a droplet
  dictionary yields its string keys, on which \<^verbatim>\<open>.get\<close> raises; the
  \<^verbatim>\<open>except\<close> returns None.
\<close>

definition find_machine_reserved_ip :: "provider \<Rightarrow> string \<Rightarrow> int \<Rightarrow> world \<Rightarrow> string option \<times> world" where
  "find_machine_reserved_ip prov token did w =
     (case get_reserved_ips prov token 3 True w of
        (ReservedIps xs, w1) \<Rightarrow>
          (case find (\<lambda>r. droplet r = Some did) xs of
             None \<Rightarrow> (None, w1)
           | Some r \<Rightarrow> (ip r, w1))
      | (Droplets d, w1) \<Rightarrow> (None, w1))"

definition ip_exists :: "string \<Rightarrow> reserved_ip list \<Rightarrow> bool" where
  "ip_exists rip xs = list_ex (\<lambda>r. ip r = Some rip) xs"

function wait_for_reserved_ip_deletion_loop ::
  "provider \<Rightarrow> string \<Rightarrow> string \<Rightarrow> int \<Rightarrow> int \<Rightarrow> world \<Rightarrow> bool \<times> world" where
  "wait_for_reserved_ip_deletion_loop prov token rip max_wait_time wait_time w =
     (if wait_time < max_wait_time then
        (case get_reserved_ips prov token 3 True w of
           (ReservedIps xs, w1) \<Rightarrow>
             if \<not> ip_exists rip xs then (True, w1)
             else wait_for_reserved_ip_deletion_loop prov token rip max_wait_time
                    (wait_time + 10) (sleep 10 w1)
         | (Droplets d, w1) \<Rightarrow>
             if d = [] then (True, w1)
             else wait_for_reserved_ip_deletion_loop prov token rip max_wait_time
                    (wait_time + 10) (sleep 10 w1))
      else (False, w))"
  by pat_completeness auto
termination
  by (relation "measure (\<lambda>(prov, token, rip, max_wait_time, wait_time, w). nat (max_wait_time - wait_time))")
     auto

definition wait_for_reserved_ip_deletion ::
  "provider \<Rightarrow> string \<Rightarrow> string \<Rightarrow> int \<Rightarrow> world \<Rightarrow> bool \<times> world" where
  "wait_for_reserved_ip_deletion prov token rip max_wait_time w =
     wait_for_reserved_ip_deletion_loop prov token rip max_wait_time 0 w"

function wait_for_reserved_ip_creation_loop ::
  "provider \<Rightarrow> string \<Rightarrow> int \<Rightarrow> int \<Rightarrow> int \<Rightarrow> world \<Rightarrow> string option \<times> world" where
  "wait_for_reserved_ip_creation_loop prov token did max_wait_time wait_time w =
     (if wait_time < max_wait_time then
        (case find_machine_reserved_ip prov token did w of
           (Some new_reserved_ip, w1) \<Rightarrow>
             if new_reserved_ip \<noteq> [] then (Some new_reserved_ip, w1)
             else wait_for_reserved_ip_creation_loop prov token did max_wait_time
                    (wait_time + 10) (sleep 10 w1)
         | (None, w1) \<Rightarrow>
             wait_for_reserved_ip_creation_loop prov token did max_wait_time
               (wait_time + 10) (sleep 10 w1))
      else (None, w))"
  by pat_completeness auto
termination
  by (relation "measure (\<lambda>(prov, token, did, max_wait_time, wait_time, w). nat (max_wait_time - wait_time))")
     auto

definition wait_for_reserved_ip_creation ::
  "provider \<Rightarrow> string \<Rightarrow> int \<Rightarrow> int \<Rightarrow> world \<Rightarrow> string option \<times> world" where
  "wait_for_reserved_ip_creation prov token did max_wait_time w =
     wait_for_reserved_ip_creation_loop prov token did max_wait_time 0 w"

text \<open>
  The responses of \<^verbatim>\<open>replace_reserved_ip\<close>, one constructor per
  \<^verbatim>\<open>return\<close> of the route, in source order, with the HTTP code each carries.
  \<open>Quota_exceeded\<close> holds \<^verbatim>\<open>original_message\<close> (\<open>None\<close>: the
  dictionary had no message and the default text is used);
  \<open>Create_failed_after_retries\<close> holds \<^verbatim>\<open>retries_attempted\<close> and
  \<^verbatim>\<open>last_error\<close> (\<open>None\<close>: the default dictionary that has only a
  message); \<open>Completed\<close> holds the old and the confirmed new address.
\<close>

datatype replace_response =
    No_reserved_ip
  | Delete_failed
  | Delete_timeout
  | Quota_exceeded "string option"
  | Create_failed_after_retries nat "error_dict option"
  | Create_timeout
  | Completed string string

fun error_code :: "replace_response \<Rightarrow> int option" where
  "error_code No_reserved_ip = Some 400"
| "error_code Delete_failed = Some 400"
| "error_code Delete_timeout = Some 408"
| "error_code (Quota_exceeded m) = Some 400"
| "error_code (Create_failed_after_retries n e) = Some 400"
| "error_code Create_timeout = Some 408"
| "error_code (Completed old new) = None"

text \<open>Python truthiness and dictionary tests on the values the two calls return.\<close>

fun truthy_delete :: "delete_ret \<Rightarrow> bool" where
  "truthy_delete DelTrue = True"
| "truthy_delete DelFalse = False"
| "truthy_delete (DelError e) = True"

fun truthy_create :: "create_ret \<Rightarrow> bool" where
  "truthy_create RetNone = False"
| "truthy_create (RetInfo None) = False"
| "truthy_create (RetInfo (Some r)) = True"
| "truthy_create (RetError e) = True"

fun is_dict :: "create_ret \<Rightarrow> bool" where
  "is_dict RetNone = False"
| "is_dict (RetInfo r) = True"
| "is_dict (RetError e) = True"

fun has_error_key :: "create_ret \<Rightarrow> bool" where
  "has_error_key (RetError e) = True"
| "has_error_key other = False"

text \<open>
  The loop \<^verbatim>\<open>for attempt in range(max_retries)\<close> of step 5.  It ends with
  \<open>Inl\<close> when the route returns from inside the loop (quota exceeded), and with
  \<open>Inr\<close> of the variables \<^verbatim>\<open>new_reserved_ip_info\<close> and
  \<^verbatim>\<open>last_error\<close> when it falls through or breaks.  The loop's own
  \<^verbatim>\<open>except Exception\<close> is not a branch here: \<^verbatim>\<open>create_reserved_ip\<close>
  catches every exception of its requests and returns a value.
\<close>

fun create_new_loop ::
  "provider \<Rightarrow> string \<Rightarrow> int \<Rightarrow> nat \<Rightarrow> nat list \<Rightarrow> create_ret \<Rightarrow> error_dict option \<Rightarrow> world \<Rightarrow>
   (replace_response + create_ret \<times> error_dict option) \<times> world" where
  "create_new_loop prov token did max_retries [] info last_error w = (Inr (info, last_error), w)"
| "create_new_loop prov token did max_retries (attempt # rest) info last_error w =
     (case create_reserved_ip prov token did 3 w of
        (new_info, w1) \<Rightarrow>
          if truthy_create new_info \<and> \<not> is_dict new_info then (Inr (new_info, last_error), w1)
          else
            (case new_info of
               RetError e \<Rightarrow>
                 if error e \<noteq> [] then
                   (if error e = ''quota_exceeded'' then (Inl (Quota_exceeded (error_message e)), w1)
                    else if attempt < max_retries - 1
                    then create_new_loop prov token did max_retries rest new_info (Some e)
                           (sleep ((real attempt + 1) * 15) w1)
                    else create_new_loop prov token did max_retries rest new_info (Some e) w1)
                 else (Inr (new_info, last_error), w1)
             | _ \<Rightarrow> (Inr (new_info, last_error), w1)))"

definition error_details :: "create_ret \<Rightarrow> error_dict option \<Rightarrow> error_dict option" where
  "error_details info last_error =
     (case last_error of
        Some e \<Rightarrow> Some e
      | None \<Rightarrow> (case info of RetError e \<Rightarrow> Some e | _ \<Rightarrow> None))"

text \<open>
  The route after \<^verbatim>\<open>get_machine_details\<close> has resolved the machine name
  to its droplet id and token (the configuration lookup is a parameter here).
\<close>

definition replace_reserved_ip :: "provider \<Rightarrow> string \<Rightarrow> int \<Rightarrow> world \<Rightarrow> replace_response \<times> world" where
  "replace_reserved_ip prov token did w =
     (case find_machine_reserved_ip prov token did w of
        (None, w1) \<Rightarrow> (No_reserved_ip, w1)
      | (Some current_reserved_ip, w1) \<Rightarrow>
          if current_reserved_ip = [] then (No_reserved_ip, w1)
          else
            (case delete_reserved_ip prov token current_reserved_ip 3 w1 of
               (delete_success, w2) \<Rightarrow>
                 if \<not> truthy_delete delete_success then (Delete_failed, w2)
                 else
                   (case wait_for_reserved_ip_deletion prov token current_reserved_ip 120 w2 of
                      (delete_confirmed, w3) \<Rightarrow>
                        if \<not> delete_confirmed then (Delete_timeout, w3)
                        else
                          (case create_new_loop prov token did 3 [0..<3] RetNone None (sleep 10 w3) of
                             (Inl resp, w4) \<Rightarrow> (resp, w4)
                           | (Inr (new_reserved_ip_info, last_error), w4) \<Rightarrow>
                               if \<not> truthy_create new_reserved_ip_info
                                  \<or> (is_dict new_reserved_ip_info \<and> has_error_key new_reserved_ip_info)
                               then (Create_failed_after_retries 3
                                       (error_details new_reserved_ip_info last_error), w4)
                               else
                                 (case wait_for_reserved_ip_creation prov token did 120 w4 of
                                    (Some confirmed_new_ip, w5) \<Rightarrow>
                                      if confirmed_new_ip = [] then (Create_timeout, w5)
                                      else (Completed current_reserved_ip confirmed_new_ip, w5)
                                  | (None, w5) \<Rightarrow> (Create_timeout, w5))))))"

section \<open>Observing the trace\<close>

text \<open>The sleeps of a trace in order, its requests in order, and its create requests.\<close>

fun sleeps :: "event list \<Rightarrow> real list" where
  "sleeps [] = []"
| "sleeps (Sleep d # es) = d # sleeps es"
| "sleeps (Request rq # es) = sleeps es"

fun requests :: "event list \<Rightarrow> request list" where
  "requests [] = []"
| "requests (Sleep d # es) = requests es"
| "requests (Request rq # es) = rq # requests es"

definition posts :: "event list \<Rightarrow> request list" where
  "posts es = filter (\<lambda>rq. meth rq = POST) (requests es)"

text \<open>
  A listing that shows address \<open>rip\<close> on the first reserved IP bound to droplet
  \<open>did\<close>.
\<close>

definition shows_bound :: "int \<Rightarrow> string \<Rightarrow> reserved_ip list \<Rightarrow> bool" where
  "shows_bound did rip xs =
     (case find (\<lambda>r. droplet r = Some did) xs of None \<Rightarrow> False | Some r \<Rightarrow> ip r = Some rip)"

section \<open>Scenarios\<close>

text \<open>Concrete worlds, replies and providers on which the theorems below are exercised.\<close>

definition fresh_world :: "real \<Rightarrow> world" where
  "fresh_world t = \<lparr>cache = Map.empty, now = t, sent = 0, trace = []\<rparr>"

definition body_message :: "string \<Rightarrow> json_body" where
  "body_message m = \<lparr>message = Some m, reserved_ips = None, created = None, droplets = None\<rparr>"

definition body_listing :: "reserved_ip list \<Rightarrow> json_body" where
  "body_listing xs = \<lparr>message = None, reserved_ips = Some xs, created = None, droplets = None\<rparr>"

definition body_created :: "reserved_ip \<Rightarrow> json_body" where
  "body_created r = \<lparr>message = None, reserved_ips = None, created = Some r, droplets = None\<rparr>"

definition body_droplets :: "raw_droplet list \<Rightarrow> json_body" where
  "body_droplets ds = \<lparr>message = None, reserved_ips = None, created = None, droplets = Some ds\<rparr>"

definition answer :: "int \<Rightarrow> json_body option \<Rightarrow> reply" where
  "answer code body = \<lparr>latency = 0, outcome = Responds \<lparr>status_code = code, json = body\<rparr>\<rparr>"

definition no_answer :: reply where
  "no_answer = \<lparr>latency = 0, outcome = Raises\<rparr>"

definition bound_ip :: "string \<Rightarrow> int \<Rightarrow> reserved_ip" where
  "bound_ip a did = \<lparr>ip = Some a, droplet = Some did\<rparr>"

text \<open>
  A provider given by what it lists on the n-th request, what it answers to a delete and
  what it answers to a create sent as the n-th request.
\<close>

definition scripted :: "(nat \<Rightarrow> reserved_ip list) \<Rightarrow> reply \<Rightarrow> (nat \<Rightarrow> reply) \<Rightarrow> provider" where
  "scripted listing del post n rq =
     (case meth rq of
        GET \<Rightarrow> answer 200 (Some (body_listing (listing n)))
      | DELETE \<Rightarrow> del
      | POST \<Rightarrow> post n)"

definition provider_down :: provider where
  "provider_down n rq = no_answer"

text \<open>A provider that serves both listings, whatever the token.\<close>

definition provider_both :: provider where
  "provider_both n rq =
     (if url rq = ''https://api.digitalocean.com/v2/droplets''
      then answer 200 (Some (body_droplets
             [\<lparr>raw_id = Some 42, raw_name = Some ''us1'',
               raw_v4 = [\<lparr>ip_address = Some ''10.0.0.1'', ip_type = Some ''public''\<rparr>]\<rparr>]))
      else answer 200 (Some (body_listing [bound_ip ''1.2.3.4'' 42])))"

text \<open>The droplet keeps its address \<open>1.2.3.4\<close>; every delete meets a pending event.\<close>

definition provider_pending :: provider where
  "provider_pending =
     scripted (\<lambda>n. [bound_ip ''1.2.3.4'' 42])
       (answer 422 (Some (body_message ''Droplet already has a pending event.'')))
       (\<lambda>n. no_answer)"

text \<open>The delete is accepted but the address never leaves the listing.\<close>

definition provider_stuck :: provider where
  "provider_stuck =
     scripted (\<lambda>n. [bound_ip ''1.2.3.4'' 42]) (answer 204 None)
       (\<lambda>n. answer 201 (Some (body_created (bound_ip ''5.6.7.8'' 42))))"

text \<open>
  The delete takes effect at once (the first listing after it is empty); every create
  meets the account's quota.
\<close>

definition quota_message :: string where
  "quota_message = ''creating this reserved IP would exceed your Reserved IP limit''"

definition provider_quota :: provider where
  "provider_quota =
     scripted (\<lambda>n. if n = 0 then [bound_ip ''1.2.3.4'' 42] else []) (answer 204 None)
       (\<lambda>n. answer 422 (Some (body_message quota_message)))"

text \<open>
  The delete takes effect at once, and so does the create: the listings after the create
  request show the new address \<open>5.6.7.8\<close> bound to the droplet.
\<close>

definition provider_prompt :: provider where
  "provider_prompt =
     scripted (\<lambda>n. if n = 0 then [bound_ip ''1.2.3.4'' 42]
                    else if n < 4 then [] else [bound_ip ''5.6.7.8'' 42])
       (answer 204 None)
       (\<lambda>n. answer 201 (Some (body_created (bound_ip ''5.6.7.8'' 42))))"

text \<open>
  The delete takes effect at once.  The create endpoint answers 500 to the first six
  requests it could receive (requests 3 to 8 of the run) and accepts from then on.
\<close>

definition provider_flaky_create :: provider where
  "provider_flaky_create =
     scripted (\<lambda>n. if n = 0 then [bound_ip ''1.2.3.4'' 42] else []) (answer 204 None)
       (\<lambda>n. if n < 9 then answer 500 None
             else answer 201 (Some (body_created (bound_ip ''5.6.7.8'' 42))))"

text \<open>
  As before, but the create endpoint answers 422 with an unclassified message to its
  first two requests.
\<close>

definition provider_unprocessable_twice :: provider where
  "provider_unprocessable_twice =
     scripted (\<lambda>n. if n = 0 then [bound_ip ''1.2.3.4'' 42]
                    else if n < 6 then [] else [bound_ip ''5.6.7.8'' 42])
       (answer 204 None)
       (\<lambda>n. if n < 5 then answer 422 (Some (body_message ''Droplet is locked''))
             else answer 201 (Some (body_created (bound_ip ''5.6.7.8'' 42))))"

text \<open>Two accounts: requests bearing token \<open>A\<close> fail, those bearing \<open>B\<close> succeed.\<close>

definition provider_accounts :: provider where
  "provider_accounts n rq =
     (if bearer rq = ''B-token-of-account''
      then answer 200 (Some (body_listing [bound_ip ''9.9.9.9'' 7]))
      else answer 500 None)"

definition two_accounts :: "(string \<times> config_value) list" where
  "two_accounts =
     [(''do_token1'', CfgStr ''A-token-of-account''),
      (''do_token2'', CfgStr ''B-token-of-account''),
      (''api_port'', CfgNum 5000)]"

definition three_accounts :: "(string \<times> config_value) list" where
  "three_accounts =
     [(''do_token1'', CfgStr ''A-token-of-account''),
      (''do_token2'', CfgStr ''account B: B-token-of-account ''),
      (''do_token3'', CfgNum 12345)]"

text \<open>
  Two accounts whose tokens have the same first ten characters: the first request of the
  run (sent with the first token) is answered with status 500, and from then on each
  token is served its own listing.
\<close>

definition provider_shared_prefix :: provider where
  "provider_shared_prefix n rq =
     (if bearer rq = ''dop_v1_aaaa1111''
      then (if n = 0 then answer 500 None
            else answer 200 (Some (body_listing [bound_ip ''1.1.1.1'' 1])))
      else answer 200 (Some (body_listing [bound_ip ''2.2.2.2'' 2])))"

definition shared_prefix_accounts :: "(string \<times> config_value) list" where
  "shared_prefix_accounts =
     [(''do_token1'', CfgStr ''dop_v1_aaaa1111''),
      (''do_token2'', CfgStr ''dop_v1_aaaa2222'')]"

section \<open>Basic facts\<close>

lemma range_3: "[0..<3] = [0, 1, 2::nat]"
  by (simp add: upt_rec numeral_3_eq_3)

lemma cache_sleep [simp]: "cache (sleep d w) = cache w"
  by (simp add: sleep_def)

lemma cache_http [simp]: "cache (snd (http prov rq w)) = cache w"
  by (simp add: http_def Let_def)

lemma cache_loop_uncached:
  "cache (snd (get_reserved_ips_loop prov token retries False attempts w)) = cache w"
proof (induction attempts arbitrary: w)
  case Nil
  show ?case by simp
next
  case (Cons attempt rest)
  obtain out w1 where h: "http prov (api_request GET ''reserved_ips'' token None) w = (out, w1)"
    by (cases "http prov (api_request GET ''reserved_ips'' token None) w")
  have c1: "cache w1 = cache w"
    using cache_http [of prov "api_request GET ''reserved_ips'' token None" w] h by simp
  show ?case
    using h c1 Cons.IH
    by (simp add: Let_def split: http_outcome.split option.split)
qed

section \<open>The TTL cache\<close>

text \<open>
  C8.  An entry stored by \<open>set_cache\<close> carries the time of the insertion, and the passing
  of time alone does not touch the store.  In any later world that still holds the entry
  \<open>(v, t)\<close> under the key, a read strictly before \<open>t + 30\<close> returns \<open>v\<close> and leaves the
  world as it is; a read at or after \<open>t + 30\<close> is a miss and removes the entry, and that
  read is the only place where the expiry is looked at.
\<close>

theorem cache_ttl:
  "cache (set_cache k v w) k = Some (v, now w)
   \<and> cache (sleep d w) = cache w
   \<and> (cache w2 k = Some (v, t) \<longrightarrow> now w2 < t + 30 \<longrightarrow> get_from_cache k w2 = (Some v, w2))
   \<and> (cache w2 k = Some (v, t) \<longrightarrow> t + 30 \<le> now w2 \<longrightarrow>
        get_from_cache k w2 = (None, w2\<lparr>cache := (cache w2)(k := None)\<rparr>))"
  by (simp add: set_cache_def get_from_cache_def cache_timeout_def sleep_def)

theorem cache_ttl_witness:
  "get_from_cache ''k'' (sleep 29 (set_cache ''k'' (ReservedIps []) (fresh_world 100)))
     = (Some (ReservedIps []), sleep 29 (set_cache ''k'' (ReservedIps []) (fresh_world 100)))
   \<and> fst (get_from_cache ''k'' (sleep 31 (set_cache ''k'' (ReservedIps []) (fresh_world 100)))) = None
   \<and> cache (snd (get_from_cache ''k'' (sleep 31 (set_cache ''k'' (ReservedIps []) (fresh_world 100))))) ''k''
       = None"
  using cache_ttl [of "''k''" "ReservedIps []" "fresh_world 100" 29
          "sleep 29 (set_cache ''k'' (ReservedIps []) (fresh_world 100))" 100]
        cache_ttl [of "''k''" "ReservedIps []" "fresh_world 100" 31
          "sleep 31 (set_cache ''k'' (ReservedIps []) (fresh_world 100))" 100]
  by (simp add: sleep_def set_cache_def fresh_world_def)

text \<open>
  C10.  With \<open>use_cache = False\<close> the listing operation leaves the store as it found it,
  whatever the provider answers and however many attempts are made.
\<close>

theorem get_reserved_ips_uncached_frame:
  "cache (snd (get_reserved_ips prov token retries False w)) = cache w"
  by (simp add: get_reserved_ips_def cache_loop_uncached)

section \<open>Evaluation rules and effects of the primitives\<close>

lemmas scenario_defs = fresh_world_def body_message_def body_listing_def body_created_def
  body_droplets_def answer_def no_answer_def bound_ip_def scripted_def provider_down_def
  provider_both_def provider_pending_def provider_stuck_def quota_message_def provider_quota_def
  provider_prompt_def provider_flaky_create_def provider_unprocessable_twice_def
  provider_accounts_def two_accounts_def three_accounts_def provider_shared_prefix_def
  shared_prefix_accounts_def

lemmas gather_defs = get_all_tokens_reserved_ips_def fetch_token_data_def
  resume_fetch_token_data_def task_after_def get_reserved_ips_start_def begin_sleep_def
  extract_token_def len_cached_def strip_def after_colon_def is_space_def

lemmas run_defs = sleep_def http_def get_from_cache_def set_cache_def get_cache_key_def
  api_request_def get_reserved_ips_def Let_def cache_timeout_def delete_reserved_ip_def
  create_reserved_ip_def find_machine_reserved_ip_def lower_def lower_char_def ip_exists_def
  range_3 wait_for_reserved_ip_deletion_def wait_for_reserved_ip_creation_def
  replace_reserved_ip_def error_details_def posts_def get_droplets_cached_def get_droplets_def
  extract_droplet_details_def wait_for_reserved_ip_deletion_loop.simps
  wait_for_reserved_ip_creation_loop.simps

declare wait_for_reserved_ip_deletion_loop.simps [simp del]

declare wait_for_reserved_ip_creation_loop.simps [simp del]

lemma range_4: "[0..<4] = [0, 1, 2, 3::nat]"
  by (simp add: upt_rec numeral_eq_Suc)

lemma http_eq:
  "http prov rq w =
     (outcome (prov (sent w) rq),
      w\<lparr>now := now w + latency (prov (sent w) rq), sent := Suc (sent w),
        trace := trace w @ [Request rq]\<rparr>)"
  by (simp add: http_def Let_def)

lemma trace_http: "trace (snd (http prov rq w)) = trace w @ [Request rq]"
  by (simp add: http_eq)

lemma sent_http: "sent (snd (http prov rq w)) = Suc (sent w)"
  by (simp add: http_eq)

lemma sent_sleep [simp]: "sent (sleep d w) = sent w"
  by (simp add: sleep_def)

lemma trace_sleep [simp]: "trace (sleep d w) = trace w @ [Sleep d]"
  by (simp add: sleep_def)

lemma now_sleep [simp]: "now (sleep d w) = now w + d"
  by (simp add: sleep_def)

section \<open>Cache keys\<close>

lemma get_cache_key_prefix:
  "take 10 t1 = take 10 t2 \<Longrightarrow> get_cache_key t1 endpoint = get_cache_key t2 endpoint"
  by (simp add: get_cache_key_def)

lemma get_reserved_ips_hit:
  assumes "cache w (get_cache_key token ''reserved_ips'') = Some (c, ts)" "now w < ts + 30"
  shows "get_reserved_ips prov token retries True w = (c, w)"
  using assms by (simp add: get_reserved_ips_def get_from_cache_def cache_timeout_def)

lemma get_droplets_cached_hit:
  assumes "cache w (get_cache_key token ''droplets'') = Some (c, ts)" "now w < ts + 30"
  shows "get_droplets_cached prov token True w = (c, w)"
  using assms by (simp add: get_droplets_cached_def get_from_cache_def cache_timeout_def)

lemma get_reserved_ips_fetch:
  assumes miss: "cache w (get_cache_key token ''reserved_ips'') = None"
    and retries: "0 < retries"
    and reply: "outcome (prov (sent w) (api_request GET ''reserved_ips'' token None))
                  = Responds \<lparr>status_code = 200, json = Some data\<rparr>"
    and fetch: "get_reserved_ips prov token retries True w = (c, w1)"
  shows "c = ReservedIps (case reserved_ips data of None \<Rightarrow> [] | Some xs \<Rightarrow> xs)
         \<and> cache w1 (get_cache_key token ''reserved_ips'') = Some (c, now w1)
         \<and> trace w1 = trace w @ [Request (api_request GET ''reserved_ips'' token None)]"
proof -
  have up: "[0..<retries] = 0 # [Suc 0..<retries]"
    using retries by (simp add: upt_conv_Cons)
  show ?thesis
    using miss reply fetch
    by (auto simp add: get_reserved_ips_def get_from_cache_def up http_def Let_def set_cache_def)
qed

lemma get_droplets_cached_fetch:
  assumes miss: "cache w (get_cache_key token ''droplets'') = None"
    and reply: "outcome (prov (sent w) (api_request GET ''droplets'' token None))
                  = Responds \<lparr>status_code = 200, json = Some data\<rparr>"
    and nonempty: "extract_droplet_details data \<noteq> []"
    and fetch: "get_droplets_cached prov token True w = (c, w1)"
  shows "c = Droplets (extract_droplet_details data)
         \<and> cache w1 (get_cache_key token ''droplets'') = Some (c, now w1)
         \<and> trace w1 = trace w @ [Request (api_request GET ''droplets'' token None)]"
  using miss reply nonempty fetch
  by (auto simp add: get_droplets_cached_def get_droplets_def get_from_cache_def range_3 http_def
        Let_def set_cache_def)

text \<open>
  C9.  The cache key is the first ten characters of the token followed by the endpoint
  name, so two tokens with the same first ten characters have the same key.  When a
  listing (of reserved IPs, or of droplets) has been fetched and cached with the first
  token, a cached read with the second token in a world that still holds that entry and
  is less than 30 seconds older returns the first token's listing and sends no request.
\<close>

theorem cache_shared_by_token_prefix:
  assumes "take 10 t1 = take 10 t2"
  shows "get_cache_key t1 endpoint = get_cache_key t2 endpoint
    \<and> (cache w (get_cache_key t1 ''reserved_ips'') = None \<and> 0 < retries
        \<and> outcome (prov (sent w) (api_request GET ''reserved_ips'' t1 None))
             = Responds \<lparr>status_code = 200, json = Some data\<rparr>
        \<and> get_reserved_ips prov t1 retries True w = (c, w1)
        \<and> cache w2 (get_cache_key t1 ''reserved_ips'') = cache w1 (get_cache_key t1 ''reserved_ips'')
        \<and> now w2 < now w1 + 30 \<longrightarrow>
         get_reserved_ips prov2 t2 retries2 True w2 = (c, w2))
    \<and> (cache v (get_cache_key t1 ''droplets'') = None
        \<and> outcome (prov (sent v) (api_request GET ''droplets'' t1 None))
             = Responds \<lparr>status_code = 200, json = Some ddata\<rparr>
        \<and> extract_droplet_details ddata \<noteq> []
        \<and> get_droplets_cached prov t1 True v = (dl, v1)
        \<and> cache v2 (get_cache_key t1 ''droplets'') = cache v1 (get_cache_key t1 ''droplets'')
        \<and> now v2 < now v1 + 30 \<longrightarrow>
         get_droplets_cached prov2 t2 True v2 = (dl, v2))"
proof (intro conjI impI; (elim conjE)?)
  show "get_cache_key t1 endpoint = get_cache_key t2 endpoint"
    using assms by (rule get_cache_key_prefix)
next
  assume a: "cache w (get_cache_key t1 ''reserved_ips'') = None" "0 < retries"
    "outcome (prov (sent w) (api_request GET ''reserved_ips'' t1 None))
           = Responds \<lparr>status_code = 200, json = Some data\<rparr>"
    "get_reserved_ips prov t1 retries True w = (c, w1)"
    and b: "cache w2 (get_cache_key t1 ''reserved_ips'') = cache w1 (get_cache_key t1 ''reserved_ips'')"
    "now w2 < now w1 + 30"
  have "cache w1 (get_cache_key t1 ''reserved_ips'') = Some (c, now w1)"
    using get_reserved_ips_fetch [OF a] by simp
  then have "cache w2 (get_cache_key t2 ''reserved_ips'') = Some (c, now w1)"
    using b get_cache_key_prefix [OF assms, of "''reserved_ips''"] by simp
  then show "get_reserved_ips prov2 t2 retries2 True w2 = (c, w2)"
    using b(2) by (rule get_reserved_ips_hit)
next
  assume a: "cache v (get_cache_key t1 ''droplets'') = None"
    "outcome (prov (sent v) (api_request GET ''droplets'' t1 None))
           = Responds \<lparr>status_code = 200, json = Some ddata\<rparr>"
    "extract_droplet_details ddata \<noteq> []"
    "get_droplets_cached prov t1 True v = (dl, v1)"
    and b: "cache v2 (get_cache_key t1 ''droplets'') = cache v1 (get_cache_key t1 ''droplets'')"
    "now v2 < now v1 + 30"
  have "cache v1 (get_cache_key t1 ''droplets'') = Some (dl, now v1)"
    using get_droplets_cached_fetch [OF a] by simp
  then have "cache v2 (get_cache_key t2 ''droplets'') = Some (dl, now v1)"
    using b get_cache_key_prefix [OF assms, of "''droplets''"] by simp
  then show "get_droplets_cached prov2 t2 True v2 = (dl, v2)"
    using b(2) by (rule get_droplets_cached_hit)
qed

theorem cache_shared_by_token_prefix_witness:
  "''dop_v1_aaaa1111'' \<noteq> ''dop_v1_aaaa2222''
   \<and> get_cache_key ''dop_v1_aaaa1111'' ''reserved_ips'' = get_cache_key ''dop_v1_aaaa2222'' ''reserved_ips''
   \<and> fst (get_reserved_ips provider_down ''dop_v1_aaaa2222'' 3 True
            (sleep 29 (snd (get_reserved_ips provider_both ''dop_v1_aaaa1111'' 3 True (fresh_world 0)))))
       = ReservedIps [bound_ip ''1.2.3.4'' 42]
   \<and> fst (get_droplets_cached provider_down ''dop_v1_aaaa2222'' True
            (sleep 29 (snd (get_droplets_cached provider_both ''dop_v1_aaaa1111'' True (fresh_world 0)))))
       = Droplets [(''us1'', \<lparr>droplet_id = 42, v4_ips = [''10.0.0.1'']\<rparr>)]"
proof -
  let ?t1 = "''dop_v1_aaaa1111''" and ?t2 = "''dop_v1_aaaa2222''"
  let ?w = "fresh_world 0"
  let ?c = "ReservedIps [bound_ip ''1.2.3.4'' 42]"
  let ?w1 = "snd (get_reserved_ips provider_both ?t1 3 True ?w)"
  let ?d = "Droplets [(''us1'', \<lparr>droplet_id = 42, v4_ips = [''10.0.0.1'']\<rparr>)]"
  let ?dd = "body_droplets [\<lparr>raw_id = Some 42, raw_name = Some ''us1'',
               raw_v4 = [\<lparr>ip_address = Some ''10.0.0.1'', ip_type = Some ''public''\<rparr>]\<rparr>]"
  let ?v1 = "snd (get_droplets_cached provider_both ?t1 True ?w)"
  have p: "take 10 ?t1 = take 10 ?t2"
    by simp
  note T = cache_shared_by_token_prefix [OF p, where w = ?w and retries = 3 and prov = provider_both
      and data = "body_listing [bound_ip ''1.2.3.4'' 42]" and c = ?c and ?w1.0 = ?w1
      and ?w2.0 = "sleep 29 ?w1" and ?prov2.0 = provider_down and ?retries2.0 = 3
      and v = ?w and ddata = ?dd and dl = ?d and ?v1.0 = ?v1 and ?v2.0 = "sleep 29 ?v1"
      and endpoint = "''reserved_ips''"]
  have k: "get_cache_key ?t1 ''reserved_ips'' = get_cache_key ?t2 ''reserved_ips''"
    by (rule T [THEN conjunct1])
  have r: "get_reserved_ips provider_down ?t2 3 True (sleep 29 ?w1) = (?c, sleep 29 ?w1)"
    by (rule T [THEN conjunct2, THEN conjunct1, THEN mp])
       (simp add: scenario_defs run_defs)
  have d: "get_droplets_cached provider_down ?t2 True (sleep 29 ?v1) = (?d, sleep 29 ?v1)"
    by (rule T [THEN conjunct2, THEN conjunct2, THEN mp])
       (simp add: scenario_defs run_defs)
  show ?thesis
    using k r d by simp
qed

section \<open>Quota exceeded on create\<close>

lemma create_quota:
  assumes retries: "0 < retries"
    and reply: "outcome (prov (sent w) (api_request POST ''reserved_ips'' token (Some did)))
                  = Responds \<lparr>status_code = 422, json = Some body\<rparr>"
    and msg: "message body = Some m" "str_contains ''exceed your Reserved IP limit'' m"
  shows "create_reserved_ip prov token did retries w =
           (RetError \<lparr>error = ''quota_exceeded'', error_message = Some m,
                       error_ip = None, error_status_code = None\<rparr>,
            snd (http prov (api_request POST ''reserved_ips'' token (Some did)) w))"
proof -
  have up: "[0..<retries] = 0 # [Suc 0..<retries]"
    using retries by (simp add: upt_conv_Cons)
  show ?thesis
    using reply msg by (simp add: create_reserved_ip_def up http_eq)
qed

lemma create_new_loop_quota:
  assumes "create_reserved_ip prov token did 3 w =
             (RetError \<lparr>error = ''quota_exceeded'', error_message = Some m,
                         error_ip = None, error_status_code = None\<rparr>, w1)"
  shows "create_new_loop prov token did max_retries (attempt # rest) info last_error w =
           (Inl (Quota_exceeded (Some m)), w1)"
  using assms by simp

text \<open>
  C3.  When the first answer to a create request is a 422 whose message contains
  \<open>exceed your Reserved IP limit\<close>, the call returns the \<open>quota_exceeded\<close>
  dictionary in the world reached by that single request: the trace grows by one request
  and by no sleep.  An iteration of the orchestrator's create loop that makes this call
  leaves the loop with the quota response at once, whatever attempts remain; and a run of
  the route that reaches the create phase in that world ends with the quota response,
  in the world of that single request.
\<close>

theorem quota_short_circuit:
  assumes retries: "0 < retries"
    and reply: "outcome (prov (sent w) (api_request POST ''reserved_ips'' token (Some did)))
                  = Responds \<lparr>status_code = 422, json = Some body\<rparr>"
    and msg: "message body = Some m" "str_contains ''exceed your Reserved IP limit'' m"
  shows "create_reserved_ip prov token did retries w =
           (RetError \<lparr>error = ''quota_exceeded'', error_message = Some m,
                       error_ip = None, error_status_code = None\<rparr>,
            snd (http prov (api_request POST ''reserved_ips'' token (Some did)) w))
    \<and> trace (snd (http prov (api_request POST ''reserved_ips'' token (Some did)) w))
        = trace w @ [Request (api_request POST ''reserved_ips'' token (Some did))]
    \<and> create_new_loop prov token did 3 (attempt # rest) info last_error w =
        (Inl (Quota_exceeded (Some m)),
         snd (http prov (api_request POST ''reserved_ips'' token (Some did)) w))
    \<and> (find_machine_reserved_ip prov token did w0 = (Some current, wa) \<and> current \<noteq> []
        \<and> delete_reserved_ip prov token current 3 wa = (deleted, wb) \<and> truthy_delete deleted
        \<and> wait_for_reserved_ip_deletion prov token current 120 wb = (True, wc)
        \<and> w = sleep 10 wc \<longrightarrow>
        replace_reserved_ip prov token did w0 =
          (Quota_exceeded (Some m),
           snd (http prov (api_request POST ''reserved_ips'' token (Some did)) w)))"
proof -
  let ?rq = "api_request POST ''reserved_ips'' token (Some did)"
  have three: "create_reserved_ip prov token did 3 w =
           (RetError \<lparr>error = ''quota_exceeded'', error_message = Some m,
                       error_ip = None, error_status_code = None\<rparr>, snd (http prov ?rq w))"
  proof -
    have "0 < (3::nat)" by simp
    then show ?thesis
      using reply msg by (rule create_quota [where prov = prov and w = w])
  qed
  have loop: "\<And>a r i l. create_new_loop prov token did 3 (a # r) i l w =
        (Inl (Quota_exceeded (Some m)), snd (http prov ?rq w))"
    using three by (rule create_new_loop_quota)
  have flow: "replace_reserved_ip prov token did w0 = (Quota_exceeded (Some m), snd (http prov ?rq w))"
    if "find_machine_reserved_ip prov token did w0 = (Some current, wa)" "current \<noteq> []"
      "delete_reserved_ip prov token current 3 wa = (deleted, wb)" "truthy_delete deleted"
      "wait_for_reserved_ip_deletion prov token current 120 wb = (True, wc)" "w = sleep 10 wc"
    using that loop [of 0 "[1, 2]" RetNone None]
    by (simp add: replace_reserved_ip_def range_3)
  show ?thesis
    using create_quota [where prov = prov and w = w, OF retries reply msg] loop flow
    by (simp add: trace_http)
qed

theorem quota_short_circuit_witness:
  "fst (replace_reserved_ip provider_quota ''tok'' 42 (fresh_world 0)) = Quota_exceeded (Some quota_message)
   \<and> fst (create_reserved_ip provider_quota ''tok'' 42 3 (fresh_world 0))
       = RetError \<lparr>error = ''quota_exceeded'', error_message = Some quota_message,
                   error_ip = None, error_status_code = None\<rparr>
   \<and> trace (snd (create_reserved_ip provider_quota ''tok'' 42 3 (fresh_world 0)))
       = [Request (api_request POST ''reserved_ips'' ''tok'' (Some 42))]"
proof -
  let ?w0 = "fresh_world 0"
  let ?rq = "api_request POST ''reserved_ips'' ''tok'' (Some 42)"
  let ?wa = "snd (find_machine_reserved_ip provider_quota ''tok'' 42 ?w0)"
  let ?wb = "snd (delete_reserved_ip provider_quota ''tok'' ''1.2.3.4'' 3 ?wa)"
  let ?wc = "snd (wait_for_reserved_ip_deletion provider_quota ''tok'' ''1.2.3.4'' 120 ?wb)"
  have a: "find_machine_reserved_ip provider_quota ''tok'' 42 ?w0 = (Some ''1.2.3.4'', ?wa)"
    by (simp add: scenario_defs run_defs)
  have b: "delete_reserved_ip provider_quota ''tok'' ''1.2.3.4'' 3 ?wa = (DelTrue, ?wb)"
    by (simp add: scenario_defs run_defs)
  have c: "wait_for_reserved_ip_deletion provider_quota ''tok'' ''1.2.3.4'' 120 ?wb = (True, ?wc)"
    by (simp add: scenario_defs run_defs)
  have p: "0 < (3::nat)"
    by simp
  have r: "outcome (provider_quota (sent w) ?rq)
             = Responds \<lparr>status_code = 422, json = Some (body_message quota_message)\<rparr>" for w :: world
    by (simp add: scenario_defs api_request_def)
  have m: "message (body_message quota_message) = Some quota_message"
    by (simp add: body_message_def)
  have s: "str_contains ''exceed your Reserved IP limit'' quota_message"
    by (simp add: quota_message_def)
  note flow = quota_short_circuit [where prov = provider_quota and w = "sleep 10 ?wc" and ?w0.0 = ?w0
      and current = "''1.2.3.4''" and wa = ?wa and deleted = DelTrue and wb = ?wb and wc = ?wc,
      OF p r m s]
  note call = quota_short_circuit [where prov = provider_quota and w = ?w0, OF p r m s]
  have "replace_reserved_ip provider_quota ''tok'' 42 ?w0 =
          (Quota_exceeded (Some quota_message), snd (http provider_quota ?rq (sleep 10 ?wc)))"
    by (rule flow [THEN conjunct2, THEN conjunct2, THEN conjunct2, THEN mp])
       (intro conjI a b c refl; simp)
  moreover have "create_reserved_ip provider_quota ''tok'' 42 3 ?w0 =
          (RetError \<lparr>error = ''quota_exceeded'', error_message = Some quota_message,
                      error_ip = None, error_status_code = None\<rparr>, snd (http provider_quota ?rq ?w0))"
    by (rule call [THEN conjunct1])
  moreover have "trace (snd (http provider_quota ?rq ?w0)) = [Request ?rq]"
    by (simp add: http_eq fresh_world_def)
  ultimately show ?thesis
    by simp
qed

section \<open>Deleting while an event is pending\<close>

lemma sleeps_append [simp]: "sleeps (xs @ ys) = sleeps xs @ sleeps ys"
  by (induction xs rule: sleeps.induct) simp_all

lemma requests_append [simp]: "requests (xs @ ys) = requests xs @ requests ys"
  by (induction xs rule: requests.induct) simp_all

lemma posts_append [simp]: "posts (xs @ ys) = posts xs @ posts ys"
  by (simp add: posts_def)

lemma delete_pending:
  assumes reply: "\<And>n. outcome (prov n (api_request DELETE (''reserved_ips/'' @ rip) token None))
                  = Responds \<lparr>status_code = 422, json = Some body\<rparr>"
    and msg: "message body = Some m" "str_contains ''pending event'' (lower m)"
  shows "fst (delete_reserved_ip prov token rip 3 w)
           = DelError \<lparr>error = ''pending_event'', error_message = Some m,
                        error_ip = Some rip, error_status_code = None\<rparr>"
    and "trace (snd (delete_reserved_ip prov token rip 3 w))
           = trace w @ [Request (api_request DELETE (''reserved_ips/'' @ rip) token None), Sleep 5,
                        Request (api_request DELETE (''reserved_ips/'' @ rip) token None), Sleep 7,
                        Request (api_request DELETE (''reserved_ips/'' @ rip) token None)]"
    and "trace (snd (delete_reserved_ip prov token rip 4 w))
           = trace w @ [Request (api_request DELETE (''reserved_ips/'' @ rip) token None), Sleep 5,
                        Request (api_request DELETE (''reserved_ips/'' @ rip) token None), Sleep 7,
                        Request (api_request DELETE (''reserved_ips/'' @ rip) token None), Sleep 9,
                        Request (api_request DELETE (''reserved_ips/'' @ rip) token None)]"
  using reply msg
  by (simp_all add: delete_reserved_ip_def range_3 range_4 http_eq sleep_def)

text \<open>
  C7 (as the code has it).  When every answer to the delete request is a 422 whose
  message, in lower case, contains \<open>pending event\<close>, a delete with the default budget
  of three attempts sends three requests, pauses 5 seconds after the first and 7 seconds
  after the second, and returns the \<open>pending_event\<close> dictionary after the third
  without a further pause.  A pause of 9 seconds occurs only with a budget of four.
\<close>

theorem pending_event_backoff:
  assumes reply: "\<forall>n. outcome (prov n (api_request DELETE (''reserved_ips/'' @ rip) token None))
                  = Responds \<lparr>status_code = 422, json = Some body\<rparr>"
    and msg: "message body = Some m" "str_contains ''pending event'' (lower m)"
  shows "fst (delete_reserved_ip prov token rip 3 w)
           = DelError \<lparr>error = ''pending_event'', error_message = Some m,
                        error_ip = Some rip, error_status_code = None\<rparr>
    \<and> sleeps (trace (snd (delete_reserved_ip prov token rip 3 w))) = sleeps (trace w) @ [5, 7]
    \<and> trace (snd (delete_reserved_ip prov token rip 3 w))
         = trace w @ [Request (api_request DELETE (''reserved_ips/'' @ rip) token None), Sleep 5,
                      Request (api_request DELETE (''reserved_ips/'' @ rip) token None), Sleep 7,
                      Request (api_request DELETE (''reserved_ips/'' @ rip) token None)]
    \<and> sleeps (trace (snd (delete_reserved_ip prov token rip 4 w))) = sleeps (trace w) @ [5, 7, 9]"
proof -
  have r: "\<And>n. outcome (prov n (api_request DELETE (''reserved_ips/'' @ rip) token None))
                  = Responds \<lparr>status_code = 422, json = Some body\<rparr>"
    using reply by simp
  show ?thesis
    using delete_pending [where prov = prov, OF r msg, of w] by simp
qed

theorem pending_event_backoff_witness:
  "fst (delete_reserved_ip provider_pending ''tok'' ''1.2.3.4'' 3 (fresh_world 0))
     = DelError \<lparr>error = ''pending_event'',
                  error_message = Some ''Droplet already has a pending event.'',
                  error_ip = Some ''1.2.3.4'', error_status_code = None\<rparr>
   \<and> sleeps (trace (snd (delete_reserved_ip provider_pending ''tok'' ''1.2.3.4'' 4 (fresh_world 0))))
       = [5, 7, 9]"
proof -
  have r: "\<forall>n. outcome (provider_pending n (api_request DELETE (''reserved_ips/'' @ ''1.2.3.4'') ''tok'' None))
             = Responds \<lparr>status_code = 422,
                           json = Some (body_message ''Droplet already has a pending event.'')\<rparr>"
    by (simp add: scenario_defs api_request_def)
  have m: "message (body_message ''Droplet already has a pending event.'')
             = Some ''Droplet already has a pending event.''"
    by (simp add: body_message_def)
  have s: "str_contains ''pending event'' (lower ''Droplet already has a pending event.'')"
    by (simp add: lower_def lower_char_def)
  show ?thesis
    using pending_event_backoff [where prov = provider_pending and w = "fresh_world 0", OF r m s]
    by (simp add: fresh_world_def)
qed

text \<open>
  With three attempts the pauses are 5 and 7 seconds: the schedule 5, 7, 9 is not observed.
\<close>

theorem pending_event_backoff_counterexample:
  "sleeps (trace (snd (delete_reserved_ip provider_pending ''tok'' ''1.2.3.4'' 3 (fresh_world 0))))
     = [5, 7]
   \<and> sleeps (trace (snd (delete_reserved_ip provider_pending ''tok'' ''1.2.3.4'' 3 (fresh_world 0))))
     \<noteq> [5, 7, 9]"
  by (simp add: scenario_defs run_defs)

section \<open>Deletion that is never observed\<close>

lemma shows_bound_listed: "shows_bound did rip xs \<Longrightarrow> ip_exists rip xs"
  by (auto simp add: shows_bound_def ip_exists_def list_ex_iff find_Some_iff split: option.splits)

lemma posts_Nil [simp]: "posts [] = []"
  by (simp add: posts_def)

lemma posts_Sleep [simp]: "posts (Sleep d # es) = posts es"
  by (simp add: posts_def)

lemma posts_Request [simp]:
  "posts (Request rq # es) = (if meth rq = POST then rq # posts es else posts es)"
  by (simp add: posts_def)

lemma meth_api_request [simp]: "meth (api_request m path token body) = m"
  by (simp add: api_request_def)

lemma poll_present:
  assumes listing: "\<And>n. outcome (prov n (api_request GET ''reserved_ips'' token None))
                      = Responds \<lparr>status_code = 200, json = Some (body n)\<rparr>"
    and lst: "\<And>n. reserved_ips (body n) = Some (lst n)"
    and bound: "\<And>n. shows_bound did rip (lst n)"
    and inv: "\<forall>c ts. cache w (get_cache_key token ''reserved_ips'') = Some (c, ts) \<longrightarrow>
                (\<exists>xs. c = ReservedIps xs \<and> shows_bound did rip xs)"
  shows "\<exists>xs w1. get_reserved_ips prov token 3 True w = (ReservedIps xs, w1)
           \<and> shows_bound did rip xs
           \<and> (\<forall>c ts. cache w1 (get_cache_key token ''reserved_ips'') = Some (c, ts) \<longrightarrow>
                (\<exists>xs. c = ReservedIps xs \<and> shows_bound did rip xs))
           \<and> sleeps (trace w1) = sleeps (trace w)
           \<and> posts (trace w1) = posts (trace w)"
proof (cases "fst (get_from_cache (get_cache_key token ''reserved_ips'') w)")
  case (Some c)
  then have hit: "get_from_cache (get_cache_key token ''reserved_ips'') w = (Some c, w)"
    and "\<exists>ts. cache w (get_cache_key token ''reserved_ips'') = Some (c, ts)"
    by (auto simp add: get_from_cache_def split: option.splits if_splits)
  then obtain xs where "c = ReservedIps xs" "shows_bound did rip xs"
    using inv by blast
  then show ?thesis
    using hit inv by (simp add: get_reserved_ips_def)
next
  case None
  define w' where "w' = snd (get_from_cache (get_cache_key token ''reserved_ips'') w)"
  have miss: "get_from_cache (get_cache_key token ''reserved_ips'') w = (None, w')"
    using None by (simp add: w'_def prod_eq_iff)
  have tr: "trace w' = trace w"
    by (simp add: w'_def get_from_cache_def split: option.splits)
  show ?thesis
    using miss tr listing lst bound
    by (simp add: get_reserved_ips_def range_3 http_eq set_cache_def Let_def)
qed

lemma deletion_loop_present:
  assumes listing: "\<And>n. outcome (prov n (api_request GET ''reserved_ips'' token None))
                      = Responds \<lparr>status_code = 200, json = Some (body n)\<rparr>"
    and lst: "\<And>n. reserved_ips (body n) = Some (lst n)"
    and bound: "\<And>n. shows_bound did rip (lst n)"
  shows "(\<forall>c ts. cache w (get_cache_key token ''reserved_ips'') = Some (c, ts) \<longrightarrow>
                (\<exists>xs. c = ReservedIps xs \<and> shows_bound did rip xs)) \<Longrightarrow>
     fst (wait_for_reserved_ip_deletion_loop prov token rip mx wt w) = False
     \<and> posts (trace (snd (wait_for_reserved_ip_deletion_loop prov token rip mx wt w))) = posts (trace w)
     \<and> sleeps (trace (snd (wait_for_reserved_ip_deletion_loop prov token rip mx wt w)))
         = sleeps (trace w) @ replicate (nat ((mx - wt + 9) div 10)) 10"
proof (induction "nat (mx - wt)" arbitrary: wt w rule: less_induct)
  case less
  show ?case
  proof (cases "wt < mx")
    case False
    then have "nat ((mx - wt + 9) div 10) = 0"
      by simp
    then show ?thesis
      using False by (simp add: wait_for_reserved_ip_deletion_loop.simps)
  next
    case True
    obtain xs w1 where g: "get_reserved_ips prov token 3 True w = (ReservedIps xs, w1)"
      and b: "shows_bound did rip xs"
      and i: "\<forall>c ts. cache w1 (get_cache_key token ''reserved_ips'') = Some (c, ts) \<longrightarrow>
                (\<exists>xs. c = ReservedIps xs \<and> shows_bound did rip xs)"
      and s: "sleeps (trace w1) = sleeps (trace w)"
      and p: "posts (trace w1) = posts (trace w)"
      using poll_present [where prov = prov and body = body and lst = lst, OF listing lst bound less.prems]
      by blast
    have step: "wait_for_reserved_ip_deletion_loop prov token rip mx wt w
                  = wait_for_reserved_ip_deletion_loop prov token rip mx (wt + 10) (sleep 10 w1)"
      using True g shows_bound_listed [OF b]
      by (subst wait_for_reserved_ip_deletion_loop.simps) simp
    have i': "\<forall>c ts. cache (sleep 10 w1) (get_cache_key token ''reserved_ips'') = Some (c, ts) \<longrightarrow>
                (\<exists>xs. c = ReservedIps xs \<and> shows_bound did rip xs)"
      using i by simp
    have m: "nat (mx - (wt + 10)) < nat (mx - wt)"
      using True by simp
    have n: "nat ((mx - wt + 9) div 10) = Suc (nat ((mx - (wt + 10) + 9) div 10))"
      using True by linarith
    show ?thesis
      using less.hyps [OF m i'] s p
      by (simp add: step n replicate_app_Cons_same)
  qed
qed


lemma delete_loop_frame:
  "cache (snd (delete_reserved_ip_loop prov token rip retries attempts w)) = cache w
   \<and> posts (trace (snd (delete_reserved_ip_loop prov token rip retries attempts w))) = posts (trace w)"
proof (induction attempts arbitrary: w)
  case Nil
  show ?case by simp
next
  case (Cons attempt rest)
  show ?case
    by (simp add: http_eq Let_def Cons.IH split: http_outcome.split option.split)
qed

lemma find_present:
  assumes listing: "\<And>n. outcome (prov n (api_request GET ''reserved_ips'' token None))
                      = Responds \<lparr>status_code = 200, json = Some (body n)\<rparr>"
    and lst: "\<And>n. reserved_ips (body n) = Some (lst n)"
    and bound: "\<And>n. shows_bound did rip (lst n)"
    and inv: "\<forall>c ts. cache w (get_cache_key token ''reserved_ips'') = Some (c, ts) \<longrightarrow>
                (\<exists>xs. c = ReservedIps xs \<and> shows_bound did rip xs)"
  shows "\<exists>w1. find_machine_reserved_ip prov token did w = (Some rip, w1)
           \<and> (\<forall>c ts. cache w1 (get_cache_key token ''reserved_ips'') = Some (c, ts) \<longrightarrow>
                (\<exists>xs. c = ReservedIps xs \<and> shows_bound did rip xs))
           \<and> posts (trace w1) = posts (trace w)"
proof -
  obtain xs w1 where g: "get_reserved_ips prov token 3 True w = (ReservedIps xs, w1)"
    and b: "shows_bound did rip xs"
    and i: "\<forall>c ts. cache w1 (get_cache_key token ''reserved_ips'') = Some (c, ts) \<longrightarrow>
              (\<exists>xs. c = ReservedIps xs \<and> shows_bound did rip xs)"
    and p: "posts (trace w1) = posts (trace w)"
    using poll_present [where prov = prov and body = body and lst = lst, OF listing lst bound inv]
    by blast
  have "find_machine_reserved_ip prov token did w = (Some rip, w1)"
    using g b by (simp add: find_machine_reserved_ip_def shows_bound_def split: option.splits)
  then show ?thesis
    using i p by blast
qed

text \<open>
  C4.  Suppose every listing the provider serves shows the address \<open>rip\<close> on the
  reserved IP bound to the droplet, any listing cached for the credential shows the same,
  and the delete call returns a truthy value.  Then every poll of the confirmation loop
  finds the address present, the route answers \<open>Delete_timeout\<close> (code 408, not the
  \<open>Delete_failed\<close> of a rejected delete), the run adds no create request to the trace,
  and after the delete call it sleeps exactly twelve times 10 seconds, which is the
  budget of 120 seconds.
\<close>

theorem delete_timeout:
  assumes listing: "\<forall>n. outcome (prov n (api_request GET ''reserved_ips'' token None))
                      = Responds \<lparr>status_code = 200, json = Some (body n)\<rparr>"
    and lst: "\<forall>n. reserved_ips (body n) = Some (lst n)"
    and bound: "\<forall>n. shows_bound did rip (lst n)"
    and nonempty: "rip \<noteq> []"
    and inv: "\<forall>c ts. cache w (get_cache_key token ''reserved_ips'') = Some (c, ts) \<longrightarrow>
                (\<exists>xs. c = ReservedIps xs \<and> shows_bound did rip xs)"
    and accepted: "truthy_delete (fst (delete_reserved_ip prov token rip 3
                     (snd (find_machine_reserved_ip prov token did w))))"
  shows "fst (replace_reserved_ip prov token did w) = Delete_timeout
    \<and> posts (trace (snd (replace_reserved_ip prov token did w))) = posts (trace w)
    \<and> sleeps (trace (snd (replace_reserved_ip prov token did w)))
        = sleeps (trace (snd (delete_reserved_ip prov token rip 3
                     (snd (find_machine_reserved_ip prov token did w))))) @ replicate 12 10"
proof -
  have l: "\<And>n. outcome (prov n (api_request GET ''reserved_ips'' token None))
                      = Responds \<lparr>status_code = 200, json = Some (body n)\<rparr>"
    and s: "\<And>n. reserved_ips (body n) = Some (lst n)"
    and b: "\<And>n. shows_bound did rip (lst n)"
    using listing lst bound by simp_all
  obtain w1 where f: "find_machine_reserved_ip prov token did w = (Some rip, w1)"
    and i1: "\<forall>c ts. cache w1 (get_cache_key token ''reserved_ips'') = Some (c, ts) \<longrightarrow>
                (\<exists>xs. c = ReservedIps xs \<and> shows_bound did rip xs)"
    and p1: "posts (trace w1) = posts (trace w)"
    using find_present [where prov = prov and body = body and lst = lst, OF l s b inv] by blast
  obtain d w2 where del: "delete_reserved_ip prov token rip 3 w1 = (d, w2)"
    by (cases "delete_reserved_ip prov token rip 3 w1")
  have c2: "cache w2 = cache w1" and p2: "posts (trace w2) = posts (trace w1)"
    using delete_loop_frame [of prov token rip 3 "[0..<3]" w1] del
    by (simp_all add: delete_reserved_ip_def)
  have t: "truthy_delete d"
    using accepted f del by simp
  have i2: "\<forall>c ts. cache w2 (get_cache_key token ''reserved_ips'') = Some (c, ts) \<longrightarrow>
                (\<exists>xs. c = ReservedIps xs \<and> shows_bound did rip xs)"
    using i1 c2 by simp
  obtain r w3 where wt: "wait_for_reserved_ip_deletion prov token rip 120 w2 = (r, w3)"
    by (cases "wait_for_reserved_ip_deletion prov token rip 120 w2")
  have "r = False \<and> posts (trace w3) = posts (trace w2)
          \<and> sleeps (trace w3) = sleeps (trace w2) @ replicate 12 10"
    using deletion_loop_present [where prov = prov and body = body and lst = lst and mx = 120 and wt = 0,
        OF l s b i2] wt
    by (simp add: wait_for_reserved_ip_deletion_def)
  then show ?thesis
    using f del t wt nonempty p1 p2
    by (simp add: replace_reserved_ip_def)
qed

theorem delete_timeout_witness:
  "fst (replace_reserved_ip provider_stuck ''tok'' 42 (fresh_world 0)) = Delete_timeout
   \<and> posts (trace (snd (replace_reserved_ip provider_stuck ''tok'' 42 (fresh_world 0)))) = []
   \<and> sleeps (trace (snd (replace_reserved_ip provider_stuck ''tok'' 42 (fresh_world 0))))
       = replicate 12 10"
proof -
  have l: "\<forall>n. outcome (provider_stuck n (api_request GET ''reserved_ips'' ''tok'' None))
             = Responds \<lparr>status_code = 200, json = Some (body_listing [bound_ip ''1.2.3.4'' 42])\<rparr>"
    by (simp add: scenario_defs api_request_def)
  have s: "\<forall>n::nat. reserved_ips (body_listing [bound_ip ''1.2.3.4'' 42]) = Some [bound_ip ''1.2.3.4'' 42]"
    by (simp add: body_listing_def)
  have b: "\<forall>n::nat. shows_bound 42 ''1.2.3.4'' [bound_ip ''1.2.3.4'' 42]"
    by (simp add: shows_bound_def bound_ip_def)
  have n: "''1.2.3.4'' \<noteq> []"
    by simp
  have i: "\<forall>c ts. cache (fresh_world 0) (get_cache_key ''tok'' ''reserved_ips'') = Some (c, ts) \<longrightarrow>
             (\<exists>xs. c = ReservedIps xs \<and> shows_bound 42 ''1.2.3.4'' xs)"
    by (simp add: fresh_world_def)
  have a: "truthy_delete (fst (delete_reserved_ip provider_stuck ''tok'' ''1.2.3.4'' 3
             (snd (find_machine_reserved_ip provider_stuck ''tok'' 42 (fresh_world 0)))))"
    by (simp add: scenario_defs run_defs)
  have d: "sleeps (trace (snd (delete_reserved_ip provider_stuck ''tok'' ''1.2.3.4'' 3
             (snd (find_machine_reserved_ip provider_stuck ''tok'' 42 (fresh_world 0)))))) = []"
    by (simp add: scenario_defs run_defs)
  show ?thesis
    using delete_timeout [where prov = provider_stuck and body = "\<lambda>n. body_listing [bound_ip ''1.2.3.4'' 42]"
        and lst = "\<lambda>n. [bound_ip ''1.2.3.4'' 42]" and w = "fresh_world 0", OF l s b n i a] d
    by (simp add: fresh_world_def posts_def)
qed

section \<open>What the confirmation polls read\<close>

text \<open>
  C1 (as the code has it).  Both confirmation loops read the listing with the default
  \<open>use_cache = True\<close>.  A poll that finds, under the credential's key, an entry
  younger than 30 seconds decides from that cached listing and sends no request: the
  deletion loop returns in the same world or goes on after its 10-second sleep, and so
  does the creation loop.  Only a poll whose cache lookup misses (no entry, or one that
  has expired and is evicted) sends a request; the listing it receives is cached and
  decides the poll.
\<close>

theorem polls_read_through_cache:
  "(cache w (get_cache_key token ''reserved_ips'') = Some (ReservedIps xs, ts)
      \<and> now w < ts + 30 \<and> wait_time < max_wait_time \<longrightarrow>
      wait_for_reserved_ip_deletion_loop prov token rip max_wait_time wait_time w =
        (if ip_exists rip xs
         then wait_for_reserved_ip_deletion_loop prov token rip max_wait_time (wait_time + 10) (sleep 10 w)
         else (True, w))
      \<and> wait_for_reserved_ip_creation_loop prov token did max_wait_time wait_time w =
        (case find (\<lambda>r. droplet r = Some did) xs of
           None \<Rightarrow>
             wait_for_reserved_ip_creation_loop prov token did max_wait_time (wait_time + 10) (sleep 10 w)
         | Some r \<Rightarrow>
             (case ip r of
                None \<Rightarrow>
                  wait_for_reserved_ip_creation_loop prov token did max_wait_time (wait_time + 10)
                    (sleep 10 w)
              | Some a \<Rightarrow>
                  if a \<noteq> [] then (Some a, w)
                  else wait_for_reserved_ip_creation_loop prov token did max_wait_time (wait_time + 10)
                         (sleep 10 w))))
   \<and> (get_from_cache (get_cache_key token ''reserved_ips'') w = (None, w')
      \<and> outcome (prov (sent w') (api_request GET ''reserved_ips'' token None))
           = Responds \<lparr>status_code = 200, json = Some data\<rparr>
      \<and> reserved_ips data = Some ys
      \<and> w1 = set_cache (get_cache_key token ''reserved_ips'') (ReservedIps ys)
                (snd (http prov (api_request GET ''reserved_ips'' token None) w'))
      \<and> wait_time < max_wait_time \<longrightarrow>
      trace w1 = trace w' @ [Request (api_request GET ''reserved_ips'' token None)]
      \<and> wait_for_reserved_ip_deletion_loop prov token rip max_wait_time wait_time w =
        (if ip_exists rip ys
         then wait_for_reserved_ip_deletion_loop prov token rip max_wait_time (wait_time + 10) (sleep 10 w1)
         else (True, w1))
      \<and> find_machine_reserved_ip prov token did w =
        (case find (\<lambda>r. droplet r = Some did) ys of None \<Rightarrow> None | Some r \<Rightarrow> ip r, w1))"
proof (intro conjI impI; (elim conjE)?)
  assume hit: "cache w (get_cache_key token ''reserved_ips'') = Some (ReservedIps xs, ts)"
    "now w < ts + 30" and lt: "wait_time < max_wait_time"
  have g: "get_reserved_ips prov token 3 True w = (ReservedIps xs, w)"
    using hit by (rule get_reserved_ips_hit)
  show "wait_for_reserved_ip_deletion_loop prov token rip max_wait_time wait_time w =
        (if ip_exists rip xs
         then wait_for_reserved_ip_deletion_loop prov token rip max_wait_time (wait_time + 10) (sleep 10 w)
         else (True, w))"
    using g lt by (subst wait_for_reserved_ip_deletion_loop.simps) simp
  show "wait_for_reserved_ip_creation_loop prov token did max_wait_time wait_time w =
        (case find (\<lambda>r. droplet r = Some did) xs of
           None \<Rightarrow>
             wait_for_reserved_ip_creation_loop prov token did max_wait_time (wait_time + 10) (sleep 10 w)
         | Some r \<Rightarrow>
             (case ip r of
                None \<Rightarrow>
                  wait_for_reserved_ip_creation_loop prov token did max_wait_time (wait_time + 10)
                    (sleep 10 w)
              | Some a \<Rightarrow>
                  if a \<noteq> [] then (Some a, w)
                  else wait_for_reserved_ip_creation_loop prov token did max_wait_time (wait_time + 10)
                         (sleep 10 w)))"
    using g lt
    by (subst wait_for_reserved_ip_creation_loop.simps)
       (simp add: find_machine_reserved_ip_def split: option.split)
next
  assume miss: "get_from_cache (get_cache_key token ''reserved_ips'') w = (None, w')"
    and reply: "outcome (prov (sent w') (api_request GET ''reserved_ips'' token None))
           = Responds \<lparr>status_code = 200, json = Some data\<rparr>"
    and ys: "reserved_ips data = Some ys"
    and w1: "w1 = set_cache (get_cache_key token ''reserved_ips'') (ReservedIps ys)
                (snd (http prov (api_request GET ''reserved_ips'' token None) w'))"
    and lt: "wait_time < max_wait_time"
  have g: "get_reserved_ips prov token 3 True w = (ReservedIps ys, w1)"
    using miss reply ys w1 by (simp add: get_reserved_ips_def range_3 http_eq)
  show "trace w1 = trace w' @ [Request (api_request GET ''reserved_ips'' token None)]"
    using w1 by (simp add: http_eq set_cache_def)
  show "wait_for_reserved_ip_deletion_loop prov token rip max_wait_time wait_time w =
        (if ip_exists rip ys
         then wait_for_reserved_ip_deletion_loop prov token rip max_wait_time (wait_time + 10) (sleep 10 w1)
         else (True, w1))"
    using g lt by (subst wait_for_reserved_ip_deletion_loop.simps) simp
  show "find_machine_reserved_ip prov token did w =
        (case find (\<lambda>r. droplet r = Some did) ys of None \<Rightarrow> None | Some r \<Rightarrow> ip r, w1)"
    using g by (simp add: find_machine_reserved_ip_def split: option.split)
qed

theorem polls_read_through_cache_witness:
  "wait_for_reserved_ip_creation_loop provider_down ''tok'' 42 120 0
      (set_cache (get_cache_key ''tok'' ''reserved_ips'') (ReservedIps [bound_ip ''1.2.3.4'' 42])
         (fresh_world 0))
     = (Some ''1.2.3.4'',
        set_cache (get_cache_key ''tok'' ''reserved_ips'') (ReservedIps [bound_ip ''1.2.3.4'' 42])
          (fresh_world 0))
   \<and> fst (find_machine_reserved_ip provider_prompt ''tok'' 42 (fresh_world 0)) = Some ''1.2.3.4''
   \<and> trace (snd (find_machine_reserved_ip provider_prompt ''tok'' 42 (fresh_world 0)))
       = [Request (api_request GET ''reserved_ips'' ''tok'' None)]"
proof -
  let ?K = "get_cache_key ''tok'' ''reserved_ips''"
  let ?xs = "[bound_ip ''1.2.3.4'' 42]"
  let ?wc = "set_cache ?K (ReservedIps ?xs) (fresh_world 0)"
  let ?w1 = "set_cache ?K (ReservedIps ?xs)
               (snd (http provider_prompt (api_request GET ''reserved_ips'' ''tok'' None) (fresh_world 0)))"
  have h: "cache ?wc ?K = Some (ReservedIps ?xs, 0) \<and> now ?wc < 0 + 30 \<and> (0::int) < 120"
    by (simp add: set_cache_def fresh_world_def)
  have m: "get_from_cache ?K (fresh_world 0) = (None, fresh_world 0)
      \<and> outcome (provider_prompt (sent (fresh_world 0)) (api_request GET ''reserved_ips'' ''tok'' None))
           = Responds \<lparr>status_code = 200, json = Some (body_listing ?xs)\<rparr>
      \<and> reserved_ips (body_listing ?xs) = Some ?xs
      \<and> ?w1 = ?w1 \<and> (0::int) < 120"
    by (simp add: scenario_defs get_from_cache_def api_request_def)
  note T = polls_read_through_cache [where token = "''tok''" and w = ?wc and xs = ?xs and ts = 0
      and wait_time = 0 and max_wait_time = 120 and prov = provider_down and did = 42]
  note U = polls_read_through_cache [where token = "''tok''" and w = "fresh_world 0"
      and w' = "fresh_world 0" and prov = provider_prompt and data = "body_listing ?xs" and ys = ?xs
      and ?w1.0 = ?w1 and wait_time = 0 and max_wait_time = 120 and did = 42]
  have "wait_for_reserved_ip_creation_loop provider_down ''tok'' 42 120 0 ?wc = (Some ''1.2.3.4'', ?wc)"
    using T [THEN conjunct1, THEN mp, OF h] by (simp add: bound_ip_def)
  moreover have "find_machine_reserved_ip provider_prompt ''tok'' 42 (fresh_world 0) = (Some ''1.2.3.4'', ?w1)
      \<and> trace ?w1 = trace (fresh_world 0) @ [Request (api_request GET ''reserved_ips'' ''tok'' None)]"
    using U [THEN conjunct2, THEN mp, OF m] by (simp add: bound_ip_def)
  ultimately show ?thesis
    by (simp add: fresh_world_def)
qed

text \<open>
  A run against a provider on which the delete and the create take effect at once.
  After the delete request the route sleeps three times before it sends the next listing
  request, and after the create request twice: those polls were answered by the listing
  cached before the request.  In the world right after the delete, the cached read still
  shows the old address while a read that bypasses the cache shows none.
\<close>

theorem polls_bypass_cache_counterexample:
  "trace (snd (replace_reserved_ip provider_prompt ''tok'' 42 (fresh_world 0)))
     = [Request (api_request GET ''reserved_ips'' ''tok'' None),
        Request (api_request DELETE ''reserved_ips/1.2.3.4'' ''tok'' None),
        Sleep 10, Sleep 10, Sleep 10,
        Request (api_request GET ''reserved_ips'' ''tok'' None),
        Sleep 10,
        Request (api_request POST ''reserved_ips'' ''tok'' (Some 42)),
        Sleep 10, Sleep 10,
        Request (api_request GET ''reserved_ips'' ''tok'' None)]
   \<and> fst (replace_reserved_ip provider_prompt ''tok'' 42 (fresh_world 0))
       = Completed ''1.2.3.4'' ''5.6.7.8''
   \<and> fst (get_reserved_ips provider_prompt ''tok'' 3 True
            (snd (delete_reserved_ip provider_prompt ''tok'' ''1.2.3.4'' 3
                    (snd (find_machine_reserved_ip provider_prompt ''tok'' 42 (fresh_world 0))))))
       = ReservedIps [bound_ip ''1.2.3.4'' 42]
   \<and> fst (get_reserved_ips provider_prompt ''tok'' 3 False
            (snd (delete_reserved_ip provider_prompt ''tok'' ''1.2.3.4'' 3
                    (snd (find_machine_reserved_ip provider_prompt ''tok'' 42 (fresh_world 0))))))
       = ReservedIps []"
  by (simp add: scenario_defs run_defs)

section \<open>What the route does with the outcome of delete and create\<close>

text \<open>
  C2, at a run in which every delete meets a pending event.  The delete call returns the
  \<open>pending_event\<close> dictionary after its three attempts; the dictionary is truthy, so
  the route does not answer \<open>Delete_failed\<close>: it goes on to poll the listing twelve
  times and answers \<open>Delete_timeout\<close>.
\<close>

theorem pending_delete_reaches_polling:
  "fst (delete_reserved_ip provider_pending ''tok'' ''1.2.3.4'' 3
          (snd (find_machine_reserved_ip provider_pending ''tok'' 42 (fresh_world 0))))
     = DelError \<lparr>error = ''pending_event'',
                  error_message = Some ''Droplet already has a pending event.'',
                  error_ip = Some ''1.2.3.4'', error_status_code = None\<rparr>
   \<and> fst (replace_reserved_ip provider_pending ''tok'' 42 (fresh_world 0)) = Delete_timeout
   \<and> map meth (requests (trace (snd (replace_reserved_ip provider_pending ''tok'' 42 (fresh_world 0)))))
       = [GET, DELETE, DELETE, DELETE, GET, GET, GET, GET]
   \<and> sleeps (trace (snd (replace_reserved_ip provider_pending ''tok'' 42 (fresh_world 0))))
       = [5, 7] @ replicate 12 10"
  by (simp add: scenario_defs run_defs numeral_eq_Suc)

theorem pending_delete_reaches_polling_witness:
  "fst (replace_reserved_ip provider_pending ''tok'' 42 (fresh_world 0)) \<noteq> Delete_failed
   \<and> error_code (fst (replace_reserved_ip provider_pending ''tok'' 42 (fresh_world 0))) = Some 408
   \<and> length (sleeps (trace (snd (replace_reserved_ip provider_pending ''tok'' 42 (fresh_world 0)))))
       = 14"
  using pending_delete_reaches_polling by simp

text \<open>
  What step 2 does in general: \<open>False\<close> ends the route with \<open>Delete_failed\<close>
  before any poll, while \<open>True\<close> and every error dictionary reach the polling.
\<close>

lemma replace_delete_outcomes:
  assumes "find_machine_reserved_ip prov token did w = (Some current, w1)" "current \<noteq> []"
    and "delete_reserved_ip prov token current 3 w1 = (deleted, w2)"
  shows "deleted = DelFalse \<Longrightarrow> replace_reserved_ip prov token did w = (Delete_failed, w2)"
    and "deleted = DelTrue \<or> deleted = DelError e \<Longrightarrow>
         wait_for_reserved_ip_deletion prov token current 120 w2 = (False, w3) \<Longrightarrow>
         replace_reserved_ip prov token did w = (Delete_timeout, w3)"
  using assms by (auto simp add: replace_reserved_ip_def)

text \<open>
  C5, at a run in which the create endpoint answers status 500 to the first six requests
  it could receive and accepts the seventh: a first and a second create call would fail
  and a third would succeed.  The create call returns None after its three requests
  (2 seconds apart); the route leaves its retry loop on that value, makes no second call,
  sleeps neither 15 nor 30 seconds and answers \<open>Create_failed_after_retries\<close>.
\<close>

theorem generic_create_failure_not_retried:
  "fst (replace_reserved_ip provider_flaky_create ''tok'' 42 (fresh_world 0))
     = Create_failed_after_retries 3 None
   \<and> map meth (requests (trace (snd (replace_reserved_ip provider_flaky_create ''tok'' 42 (fresh_world 0)))))
       = [GET, DELETE, GET, POST, POST, POST]
   \<and> sleeps (trace (snd (replace_reserved_ip provider_flaky_create ''tok'' 42 (fresh_world 0))))
       = [10, 10, 10, 10, 2, 2]
   \<and> fst (create_reserved_ip provider_flaky_create ''tok'' 42 3
            \<lparr>cache = Map.empty, now = 0, sent = 3, trace = []\<rparr>) = RetNone
   \<and> fst (create_reserved_ip provider_flaky_create ''tok'' 42 3
            \<lparr>cache = Map.empty, now = 0, sent = 9, trace = []\<rparr>)
       = RetInfo (Some (bound_ip ''5.6.7.8'' 42))"
  by (simp add: scenario_defs run_defs)

theorem generic_create_failure_not_retried_witness:
  "(\<forall>new. fst (replace_reserved_ip provider_flaky_create ''tok'' 42 (fresh_world 0))
            \<noteq> Completed ''1.2.3.4'' new)
   \<and> length (filter (\<lambda>rq. meth rq = POST)
         (requests (trace (snd (replace_reserved_ip provider_flaky_create ''tok'' 42 (fresh_world 0))))))
       = 3
   \<and> 15 \<notin> set (sleeps (trace (snd (replace_reserved_ip provider_flaky_create ''tok'' 42
                                      (fresh_world 0)))))"
proof -
  have m: "map meth (filter (\<lambda>rq. meth rq = POST) rqs) = filter (\<lambda>m. m = POST) (map meth rqs)"
    for rqs :: "request list"
    by (induction rqs) simp_all
  have "length (map meth (filter (\<lambda>rq. meth rq = POST)
         (requests (trace (snd (replace_reserved_ip provider_flaky_create ''tok'' 42 (fresh_world 0)))))))
       = 3"
    using generic_create_failure_not_retried by (simp only: m) simp
  then show ?thesis
    using generic_create_failure_not_retried by simp
qed

text \<open>
  When the failures are classified ones (a 422 that is not the quota), the route does
  retry: three create calls, 15 and 30 seconds apart, and the run completes.
\<close>

lemma classified_create_failure_retried:
  "fst (replace_reserved_ip provider_unprocessable_twice ''tok'' 42 (fresh_world 0))
     = Completed ''1.2.3.4'' ''5.6.7.8''
   \<and> map meth (requests (trace (snd (replace_reserved_ip provider_unprocessable_twice ''tok'' 42
                                        (fresh_world 0)))))
       = [GET, DELETE, GET, POST, POST, POST, GET]
   \<and> sleeps (trace (snd (replace_reserved_ip provider_unprocessable_twice ''tok'' 42 (fresh_world 0))))
       = [10, 10, 10, 10, 15, 30]"
  by (simp add: scenario_defs run_defs)

section \<open>The aggregator and a fetch that fails\<close>

text \<open>
  A listing call that is the only task of its event loop: run from sleep to sleep, with
  the clock moved by 2 seconds at each sleep, it is the loop of
  \<open>get_reserved_ips\<close> as the orchestrator runs it.
\<close>

lemma get_reserved_ips_loop_steps:
  "get_reserved_ips_loop prov token retries use_cache attempts w =
     (case get_reserved_ips_steps prov token retries use_cache attempts w of
        (Returned c, w1) \<Rightarrow> (c, w1)
      | (Suspended rest, w1) \<Rightarrow>
          get_reserved_ips_loop prov token retries use_cache rest (w1\<lparr>now := now w1 + 2\<rparr>))"
proof (induction attempts arbitrary: w)
  case Nil
  show ?case by simp
next
  case (Cons attempt rest)
  have s: "sleep 2 v = (begin_sleep 2 v)\<lparr>now := now (begin_sleep 2 v) + 2\<rparr>" for v
    by (simp add: sleep_def begin_sleep_def)
  show ?case
    by (simp add: Cons.IH s Let_def split: prod.split http_outcome.split option.split)
qed

text \<open>
  The listing operation does not raise when its requests fail: when every attempt is
  answered by a transport error, a status other than 200 or an unreadable body, it
  returns the empty list.
\<close>

lemma uncached_all_fail:
  assumes "\<And>n. case outcome (prov n (api_request GET ''reserved_ips'' token None)) of
                  Raises \<Rightarrow> True
                | Responds resp \<Rightarrow> status_code resp \<noteq> 200 \<or> json resp = None"
  shows "fst (get_reserved_ips_loop prov token retries False attempts w) = ReservedIps []"
proof (induction attempts arbitrary: w)
  case Nil
  show ?case by simp
next
  case (Cons attempt rest)
  show ?case
    using assms [of "sent w"] Cons.IH
    by (auto simp add: http_eq split: http_outcome.splits option.splits)
qed

text \<open>
  C6, at a run with two accounts and an empty cache: every request that bears account
  A's token is answered with status 500, and account B's request with its listing.  The
  mapping has an entry for both accounts, and B's entry holds B's list tagged
  \<open>success\<close>.  A's entry is tagged \<open>success\<close> too, with an empty list and no
  error message: A's listing call returns the empty list after its three attempts and
  the \<open>failed\<close> branch of the task is not reached.  B's request is sent during the
  sleep that follows A's first attempt.
\<close>

theorem failed_fetch_tagged_success:
  "map_option status
     (fst (get_all_tokens_reserved_ips provider_accounts two_accounts True (fresh_world 0)) ''do_token1'')
     = Some ''success''
   \<and> map_option account_error
     (fst (get_all_tokens_reserved_ips provider_accounts two_accounts True (fresh_world 0)) ''do_token1'')
     = Some None
   \<and> map_option account_reserved_ips
     (fst (get_all_tokens_reserved_ips provider_accounts two_accounts True (fresh_world 0)) ''do_token1'')
     = Some (ReservedIps [])
   \<and> map_option status
     (fst (get_all_tokens_reserved_ips provider_accounts two_accounts True (fresh_world 0)) ''do_token2'')
     = Some ''success''
   \<and> map_option account_reserved_ips
     (fst (get_all_tokens_reserved_ips provider_accounts two_accounts True (fresh_world 0)) ''do_token2'')
     = Some (ReservedIps [bound_ip ''9.9.9.9'' 7])
   \<and> map (\<lambda>rq. (meth rq, bearer rq))
       (requests (trace (snd (get_all_tokens_reserved_ips provider_accounts two_accounts True (fresh_world 0)))))
     = [(GET, ''A-token-of-account''), (GET, ''B-token-of-account''), (GET, ''A-token-of-account''),
        (GET, ''A-token-of-account'')]
   \<and> sleeps (trace (snd (get_all_tokens_reserved_ips provider_accounts two_accounts True (fresh_world 0))))
     = [2, 2]"
  by (simp add: scenario_defs run_defs gather_defs)

theorem failed_fetch_tagged_success_witness:
  "map_option status
     (fst (get_all_tokens_reserved_ips provider_accounts two_accounts True (fresh_world 0)) ''do_token1'')
     \<noteq> Some ''failed''
   \<and> map_option account_error
     (fst (get_all_tokens_reserved_ips provider_accounts two_accounts True (fresh_world 0)) ''do_token1'')
     \<noteq> Some (Some type_error_text)
   \<and> fst (get_all_tokens_reserved_ips provider_accounts two_accounts True (fresh_world 0)) ''do_token2''
     \<noteq> None"
  using failed_fetch_tagged_success by auto

text \<open>
  The \<open>failed\<close> tag is reached when the task itself raises: a credential whose
  configured value is not a string gets an entry tagged \<open>failed\<close> with the
  exception text, next to the entries of the other two accounts.
\<close>

lemma non_string_credential_tagged_failed:
  "map_option status
     (fst (get_all_tokens_reserved_ips provider_accounts three_accounts True (fresh_world 0)) ''do_token3'')
     = Some ''failed''
   \<and> map_option account_error
     (fst (get_all_tokens_reserved_ips provider_accounts three_accounts True (fresh_world 0)) ''do_token3'')
     = Some (Some type_error_text)
   \<and> map_option account_reserved_ips
     (fst (get_all_tokens_reserved_ips provider_accounts three_accounts True (fresh_world 0)) ''do_token2'')
     = Some (ReservedIps [bound_ip ''9.9.9.9'' 7])
   \<and> map_option status
     (fst (get_all_tokens_reserved_ips provider_accounts three_accounts True (fresh_world 0)) ''do_token1'')
     = Some ''success''"
  by (simp add: scenario_defs run_defs gather_defs)

text \<open>
  Two tokens with the same cache key, the first of which fails once: the second task
  runs during the first one's sleep, misses the cache and fetches its own listing, and
  the first task then fetches its own.
\<close>

lemma tasks_interleave_at_sleep:
  "map_option account_reserved_ips
     (fst (get_all_tokens_reserved_ips provider_shared_prefix shared_prefix_accounts True (fresh_world 0))
        ''do_token1'')
     = Some (ReservedIps [bound_ip ''1.1.1.1'' 1])
   \<and> map_option account_reserved_ips
     (fst (get_all_tokens_reserved_ips provider_shared_prefix shared_prefix_accounts True (fresh_world 0))
        ''do_token2'')
     = Some (ReservedIps [bound_ip ''2.2.2.2'' 2])
   \<and> map bearer
       (requests (trace (snd (get_all_tokens_reserved_ips provider_shared_prefix shared_prefix_accounts
                                True (fresh_world 0)))))
     = [''dop_v1_aaaa1111'', ''dop_v1_aaaa2222'', ''dop_v1_aaaa1111'']"
  by (simp add: scenario_defs run_defs gather_defs)

end
